theory Spec2Isabelle
  imports Main
begin

section \<open>The y-prosemirror binding: replicated tree, local tree and the code between them\<close>

text \<open>
  The development embeds the functions of \<^verbatim>\<open>src/dist/y-prosemirror.cjs\<close> that
  reconcile a ProseMirror document with a Yjs XML fragment (\<^verbatim>\<open>updateYFragment\<close> and its
  helpers), that materialise a ProseMirror document from the fragment
  (\<^verbatim>\<open>createNodeFromYElement\<close>, \<^verbatim>\<open>createTextNodesFromYText\<close>) and that translate
  positions (\<^verbatim>\<open>absolutePositionToRelativePosition\<close>,
  \<^verbatim>\<open>relativePositionToAbsolutePosition\<close>). Yjs, lib0 and ProseMirror are libraries
  the repository calls: their data is modelled as far as the repository's code reads it,
  and their operations are either modelled by their documented effect on that data or
  taken as parameters.

  An exception of the source is a value: every function that can throw returns
  \<open>error + 'a\<close>, with \<open>Inl\<close> for the exception.
\<close>

datatype error = NodeNameMismatch | TypeError | UnexpectedCase | MethodUnimplemented

subsection \<open>JavaScript values held in attributes\<close>

text \<open>
  Attribute values are \<^verbatim>\<open>null\<close>, primitives or objects. A number is an integer
  or \<^verbatim>\<open>NaN\<close>. An object carries its reference (a number standing for the identity
  of the JavaScript object) and its properties in insertion order; an array is an object
  whose keys are its indices. Strict equality \<^verbatim>\<open>===\<close> compares primitives by value
  and objects by reference, and \<^verbatim>\<open>NaN\<close> is not equal to itself; \<open>None\<close> stands for
  \<^verbatim>\<open>undefined\<close>, the result of reading a missing key.
\<close>

datatype jsval = JNull | JNum int | JNaN | JStr string | JBool bool | JObj nat "(string \<times> jsval) list"

type_synonym jsobj = "(string \<times> jsval) list"

text \<open>
  \<^verbatim>\<open>Object.keys\<close> and \<^verbatim>\<open>for ... in\<close> enumerate the keys that are array indices
  (canonical decimal numbers below \<open>2\<^sup>3\<^sup>2 - 1\<close>) first, in ascending order, then the
  other keys in insertion order.
\<close>

definition isDigit :: "char \<Rightarrow> bool" where
  "isDigit c = (c \<in> set ''0123456789'')"

definition digitVal :: "char \<Rightarrow> nat" where
  "digitVal c = length (takeWhile (\<lambda>d. d \<noteq> c) ''0123456789'')"

definition readNat :: "string \<Rightarrow> nat" where
  "readNat k = foldl (\<lambda>n c. 10 * n + digitVal c) 0 k"

definition isIndexKey :: "string \<Rightarrow> bool" where
  "isIndexKey k = (k \<noteq> [] \<and> list_all isDigit k \<and> (k = ''0'' \<or> hd k \<noteq> CHR ''0'')
     \<and> readNat k < 4294967295)"

definition objKeys :: "jsobj \<Rightarrow> string list" where
  "objKeys obj =
     sort_key readNat (filter isIndexKey (remdups (map fst obj)))
     @ filter (\<lambda>k. \<not> isIndexKey k) (remdups (map fst obj))"

lemmas objKeys_eval = objKeys_def isIndexKey_def isDigit_def

lemma set_objKeys: "set (objKeys obj) = fst ` set obj"
  unfolding objKeys_def by auto

lemma distinct_objKeys: "distinct (objKeys obj)"
  unfolding objKeys_def by (auto simp: distinct_sort)

definition objGet :: "jsobj \<Rightarrow> string \<Rightarrow> jsval option" where
  "objGet obj key = map_of obj key"

fun strictEq :: "jsval option \<Rightarrow> jsval option \<Rightarrow> bool" where
  "strictEq None None = True"
| "strictEq (Some JNull) (Some JNull) = True"
| "strictEq (Some (JNum a)) (Some (JNum b)) = (a = b)"
| "strictEq (Some (JStr a)) (Some (JStr b)) = (a = b)"
| "strictEq (Some (JBool a)) (Some (JBool b)) = (a = b)"
| "strictEq (Some (JObj r _)) (Some (JObj r' _)) = (r = r')"
| "strictEq _ _ = False"

definition nonNullKeys :: "jsobj \<Rightarrow> string list" where
  "nonNullKeys obj = filter (\<lambda>key. \<not> strictEq (objGet obj key) (Some JNull)) (objKeys obj)"

fun objSet :: "jsobj \<Rightarrow> string \<Rightarrow> jsval \<Rightarrow> jsobj" where
  "objSet [] key v = [(key, v)]"
| "objSet ((k, w) # obj) key v = (if k = key then (k, v) # obj else (k, w) # objSet obj key v)"

definition objRemove :: "jsobj \<Rightarrow> string \<Rightarrow> jsobj" where
  "objRemove obj key = filter (\<lambda>kv. fst kv \<noteq> key) obj"

subsection \<open>equalAttrs\<close>

text \<open>
  \<^verbatim>\<open>equalAttrs(pattrs, yattrs)\<close> (lines 557-567). The first count compares the
  numbers of non-null keys; the loop runs over the non-null keys of the first argument
  and stops at the first key that fails. A key passes when it is \<^verbatim>\<open>'ychange'\<close>, when
  both values are strictly equal, or when both have \<^verbatim>\<open>typeof\<close> \<^verbatim>\<open>'object'\<close> and
  the recursive call returns true. \<^verbatim>\<open>typeof null\<close> is \<^verbatim>\<open>'object'\<close>, so an object
  on the left and \<^verbatim>\<open>null\<close> on the right reach the recursive call, whose
  \<^verbatim>\<open>Object.keys(null)\<close> throws a TypeError: the second argument is an option, with
  \<open>None\<close> for \<^verbatim>\<open>null\<close>.
\<close>

fun objSize :: "jsobj \<Rightarrow> nat" where
  "objSize obj = size_list (size_prod (\<lambda>_. 0) size) obj"

lemma objGet_size: "objGet obj key = Some (JObj r sub) \<Longrightarrow> objSize sub < objSize obj"
  unfolding objGet_def
  by (induction obj) (auto split: if_splits)

function (sequential) equalAttrs :: "jsobj \<Rightarrow> jsobj option \<Rightarrow> error + bool"
  and equalAttrsLoop :: "string list \<Rightarrow> jsobj \<Rightarrow> jsobj \<Rightarrow> error + bool" where
  "equalAttrs pattrs None = Inl TypeError"
| "equalAttrs pattrs (Some yattrs) =
     (if length (nonNullKeys pattrs) = length (nonNullKeys yattrs)
      then equalAttrsLoop (nonNullKeys pattrs) pattrs yattrs
      else Inr False)"
| "equalAttrsLoop [] pattrs yattrs = Inr True"
| "equalAttrsLoop (key # keys) pattrs yattrs =
     (if key = ''ychange'' \<or> strictEq (objGet pattrs key) (objGet yattrs key)
      then equalAttrsLoop keys pattrs yattrs
      else (case (objGet pattrs key, objGet yattrs key) of
              (Some (JObj _ l), Some (JObj _ r)) \<Rightarrow>
                 (case equalAttrs l (Some r) of
                    Inl e \<Rightarrow> Inl e
                  | Inr eq \<Rightarrow> if eq then equalAttrsLoop keys pattrs yattrs else Inr False)
            | (Some (JObj _ l), Some JNull) \<Rightarrow>
                 (case equalAttrs l None of
                    Inl e \<Rightarrow> Inl e
                  | Inr eq \<Rightarrow> if eq then equalAttrsLoop keys pattrs yattrs else Inr False)
            | _ \<Rightarrow> Inr False))"
  by pat_completeness auto
termination
  apply (relation "inv_image (less_than <*lex*> less_than)
     (\<lambda>x. case x of Inl (p, _) \<Rightarrow> (2 * objSize p + 1, 0)
                  | Inr (ks, p, _) \<Rightarrow> (2 * objSize p, length ks))")
  apply (auto dest!: objGet_size[OF sym])
  done

subsection \<open>ProseMirror nodes\<close>

text \<open>
  A ProseMirror node is an element (\<open>PNode\<close>: type name, attributes, children) or a text
  node (\<open>PText\<close>: text and marks, \<^verbatim>\<open>isText\<close>). The first field is the reference of the
  JavaScript object: ProseMirror nodes are immutable, so two model values are the same
  object exactly when they are equal, and \<^verbatim>\<open>===\<close> on nodes is equality of the model
  values. A mark has a type name and an attribute object (with its reference).
\<close>

datatype pmark = Mark string nat jsobj

datatype pnode =
    PNode nat string jsobj "pnode list"
  | PText nat string "pmark list"

text \<open>An element of \<^verbatim>\<open>NormalizedPNodeContent\<close>: a node, or an array of text nodes.\<close>

datatype pcontent = PSingle pnode | PGroup "pnode list"

fun isText :: "pnode \<Rightarrow> bool" where
  "isText (PText _ _ _) = True"
| "isText (PNode _ _ _ _) = False"

fun typeName :: "pnode \<Rightarrow> string" where
  "typeName (PNode _ name _ _) = name"
| "typeName (PText _ _ _) = ''text''"

fun attrs :: "pnode \<Rightarrow> jsobj" where
  "attrs (PNode _ _ a _) = a"
| "attrs (PText _ _ _) = []"

fun content :: "pnode \<Rightarrow> pnode list" where
  "content (PNode _ _ _ c) = c"
| "content (PText _ _ _) = []"

fun nodeText :: "pnode \<Rightarrow> string" where
  "nodeText (PText _ t _) = t"
| "nodeText (PNode _ _ _ _) = []"

fun marks :: "pnode \<Rightarrow> pmark list" where
  "marks (PText _ _ m) = m"
| "marks (PNode _ _ _ _) = []"

text \<open>
  \<^verbatim>\<open>normalizePNodeContent\<close> (lines 577-594): runs of consecutive text nodes become one
  array, every other child stays alone.
\<close>

function normalizeContent :: "pnode list \<Rightarrow> pcontent list" where
  "normalizeContent [] = []"
| "normalizeContent (n # c) =
     (if isText n
      then PGroup (n # takeWhile isText c) # normalizeContent (dropWhile isText c)
      else PSingle n # normalizeContent c)"
  by pat_completeness auto
termination
  by (relation "measure length") (auto simp: length_dropWhile_le less_Suc_eq_le)

definition normalizePNodeContent :: "pnode \<Rightarrow> pcontent list" where
  "normalizePNodeContent pnode = normalizeContent (content pnode)"

subsection \<open>The replicated tree\<close>

text \<open>
  A Yjs type below the bound fragment is a \<^verbatim>\<open>Y.XmlElement\<close>, a \<^verbatim>\<open>Y.XmlText\<close> or
  a \<^verbatim>\<open>Y.XmlHook\<close>. Each hangs on an item with an ID (client, clock) and a
  \<^verbatim>\<open>deleted\<close> flag; the child list of a type keeps its deleted items (tombstones),
  and \<^verbatim>\<open>toArray()\<close> returns the types of the items that are not deleted. A text type
  is the list of its items: strings and formatting markers (key and value,
  \<^verbatim>\<open>null\<close> ending a format). The bound root is a \<^verbatim>\<open>Y.XmlFragment\<close>: it has
  children and no item, name or attributes.

  The Mapping Table is a JavaScript \<^verbatim>\<open>Map\<close> keyed by the identity of the Yjs type.
  Each Yjs type occurs once in the tree, so the entry of a type is modelled as a field of
  that type: \<open>None\<close> when the map has no entry, a node for an element or the root, an
  array of text nodes for a text type (the \<^verbatim>\<open>ProsemirrorMapping\<close> typedef).
\<close>

type_synonym ID = "nat \<times> nat"

datatype yitem = Item (itemId: ID) (itemDeleted: bool)

datatype tcontent = ContentString string | ContentFormat string jsval

datatype ytextitem = TextItem bool tcontent

datatype ynode =
    YXmlElement yitem "pnode option" string jsobj "ynode list"
  | YXmlText yitem "pnode list option" "ytextitem list"
  | YXmlHook yitem

datatype yfragment = YXmlFragment "pnode option" "ynode list"

fun item :: "ynode \<Rightarrow> yitem" where
  "item (YXmlElement i _ _ _ _) = i"
| "item (YXmlText i _ _) = i"
| "item (YXmlHook i) = i"

definition deleted :: "ynode \<Rightarrow> bool" where
  "deleted t = itemDeleted (item t)"

definition toArray :: "ynode list \<Rightarrow> ynode list" where
  "toArray cs = filter (\<lambda>c. \<not> deleted c) cs"

fun childList :: "ynode \<Rightarrow> ynode list" where
  "childList (YXmlElement _ _ _ _ cs) = cs"
| "childList _ = []"

fun isXmlElement :: "ynode \<Rightarrow> bool" where
  "isXmlElement (YXmlElement _ _ _ _ _) = True"
| "isXmlElement _ = False"

fun isXmlText :: "ynode \<Rightarrow> bool" where
  "isXmlText (YXmlText _ _ _) = True"
| "isXmlText _ = False"

fun textItems :: "ynode \<Rightarrow> ytextitem list" where
  "textItems (YXmlText _ _ its) = its"
| "textItems _ = []"

text \<open>
  \<^verbatim>\<open>mapping.get\<close> and \<^verbatim>\<open>mapping.set\<close> on the entry of a type. The source sets
  an entry only to a value of the type's kind; the other combinations leave the entry
  as it is.
\<close>

fun mappingGet :: "ynode \<Rightarrow> pcontent option" where
  "mappingGet (YXmlElement _ m _ _ _) = map_option PSingle m"
| "mappingGet (YXmlText _ m _) = map_option PGroup m"
| "mappingGet (YXmlHook _) = None"

fun mappingSet :: "ynode \<Rightarrow> pcontent \<Rightarrow> ynode" where
  "mappingSet (YXmlElement i _ name a cs) (PSingle p) = YXmlElement i (Some p) name a cs"
| "mappingSet (YXmlText i _ its) (PGroup ps) = YXmlText i (Some ps) its"
| "mappingSet t _ = t"

text \<open>
  \<^verbatim>\<open>new Map()\<close>: the mapping with no entry, on a whole subtree.
\<close>

fun newMapping :: "ynode \<Rightarrow> ynode" where
  "newMapping (YXmlElement i _ name a cs) = YXmlElement i None name a (map newMapping cs)"
| "newMapping (YXmlText i _ its) = YXmlText i None its"
| "newMapping (YXmlHook i) = YXmlHook i"

subsection \<open>Yjs operations on the replicated tree\<close>

text \<open>
  The functions of this subsection are Yjs's, modelled by their documented effect.
  \<^verbatim>\<open>item.delete\<close> marks the item deleted and deletes the content of its type.
  \<^verbatim>\<open>type.delete(index, length)\<close> deletes the types at the given positions of
  \<^verbatim>\<open>toArray()\<close>; \<^verbatim>\<open>type.insert(index, types)\<close> places the new types right after
  the item that holds position \<open>index - 1\<close> (at the start for index 0). An update made in
  place to the type at a position of \<^verbatim>\<open>toArray()\<close> is \<open>replaceVisible\<close>: the source
  keeps a reference to the child and mutates it, the model writes the new value back.
\<close>

fun itemDelete :: "ynode \<Rightarrow> ynode" where
  "itemDelete (YXmlElement i m name a cs) = YXmlElement (Item (itemId i) True) m name a (map itemDelete cs)"
| "itemDelete (YXmlText i m its) =
     YXmlText (Item (itemId i) True) m (map (\<lambda>it. case it of TextItem _ c \<Rightarrow> TextItem True c) its)"
| "itemDelete (YXmlHook i) = YXmlHook (Item (itemId i) True)"

fun typeListDelete :: "nat \<Rightarrow> nat \<Rightarrow> ynode list \<Rightarrow> ynode list" where
  "typeListDelete index len [] = []"
| "typeListDelete index len (c # cs) =
     (if len = 0 then c # cs
      else if deleted c then c # typeListDelete index len cs
      else if index = 0 then itemDelete c # typeListDelete 0 (len - 1) cs
      else c # typeListDelete (index - 1) len cs)"

fun typeListInsert :: "nat \<Rightarrow> ynode list \<Rightarrow> ynode list \<Rightarrow> ynode list" where
  "typeListInsert 0 ins cs = ins @ cs"
| "typeListInsert (Suc index) ins [] = ins"
| "typeListInsert (Suc index) ins (c # cs) =
     c # (if deleted c then typeListInsert (Suc index) ins cs else typeListInsert index ins cs)"

fun replaceVisible :: "nat \<Rightarrow> ynode \<Rightarrow> ynode list \<Rightarrow> ynode list" where
  "replaceVisible index t [] = []"
| "replaceVisible index t (c # cs) =
     (if deleted c then c # replaceVisible index t cs
      else if index = 0 then t # cs
      else c # replaceVisible (index - 1) t cs)"

text \<open>
  \<^verbatim>\<open>Y.Text.toDelta()\<close> without a snapshot: the visible strings, cut where a visible
  formatting marker changes the current attributes; an operation has no
  \<^verbatim>\<open>attributes\<close> when none is current.
\<close>

datatype deltaop = DeltaOp (opInsert: string) (opAttributes: "jsobj option")

fun updateCurrentAttributes :: "jsobj \<Rightarrow> string \<Rightarrow> jsval \<Rightarrow> jsobj" where
  "updateCurrentAttributes cur key JNull = objRemove cur key"
| "updateCurrentAttributes cur key v = objSet cur key v"

definition packStr :: "string \<Rightarrow> jsobj \<Rightarrow> deltaop list" where
  "packStr str cur =
     (if str = [] then []
      else [DeltaOp str (if cur = [] then None else Some cur)])"

fun toDeltaFrom :: "ytextitem list \<Rightarrow> string \<Rightarrow> jsobj \<Rightarrow> deltaop list" where
  "toDeltaFrom [] str cur = packStr str cur"
| "toDeltaFrom (TextItem del c # n) str cur =
     (if del then toDeltaFrom n str cur
      else (case c of
              ContentString s \<Rightarrow> toDeltaFrom n (str @ s) cur
            | ContentFormat key v \<Rightarrow>
                packStr str cur @ toDeltaFrom n [] (updateCurrentAttributes cur key v)))"

definition toDelta :: "ytextitem list \<Rightarrow> deltaop list" where
  "toDelta its = toDeltaFrom its [] []"

text \<open>
  The remaining library operations are parameters of the model: lib0's
  \<^verbatim>\<open>simpleDiff\<close> (returning index, remove and insert), the three mutators of
  \<^verbatim>\<open>Y.Text\<close>, and the two readers that take a snapshot. A document \<^verbatim>\<open>y\<close> is the
  client id and the next clock value, from which a created type gets the ID of its item.
\<close>

datatype snapshot = Snapshot (ds: "ID list") (sv: "(nat \<times> nat) list")

datatype deltaarg = InsertOp string jsobj | RetainOp nat jsobj

datatype yjs = Yjs
  (simpleDiff: "string \<Rightarrow> string \<Rightarrow> nat \<times> nat \<times> string")
  (textDelete: "ytextitem list \<Rightarrow> nat \<Rightarrow> nat \<Rightarrow> ytextitem list")
  (textInsert: "ytextitem list \<Rightarrow> nat \<Rightarrow> string \<Rightarrow> ytextitem list")
  (applyDelta: "ytextitem list \<Rightarrow> deltaarg list \<Rightarrow> ytextitem list")
  (getAttributesSnapshot: "jsobj \<Rightarrow> snapshot \<Rightarrow> jsobj")
  (toDeltaSnapshot: "ytextitem list \<Rightarrow> snapshot option \<Rightarrow> snapshot option \<Rightarrow> deltaop list")

datatype ydoc = YDoc (clientID: nat) (clock: nat)

definition nextItem :: "ydoc \<Rightarrow> yitem \<times> ydoc" where
  "nextItem y = (Item (clientID y, clock y) False, YDoc (clientID y) (clock y + 1))"

text \<open>
  The mutations of the replicated tree that take effect, in the order the code issues
  them. Removing an attribute that is not there, deleting no character and inserting the
  empty string change nothing and are not recorded.
\<close>

datatype mutation =
    SetAttribute string jsval
  | RemoveAttribute string
  | DeleteChildren nat nat
  | InsertChildren nat nat
  | TextDelete nat nat
  | TextInsert nat string
  | TextFormat

subsection \<open>The equality test between a replicated type and local content\<close>

text \<open>
  \<^verbatim>\<open>mappedIdentity\<close> (line 621): the mapped value is the same object as the local
  content, or both are arrays of the same length holding the same objects. Two arrays
  that are the same object hold the same objects, so the model compares the elements.
\<close>

fun mappedIdentity :: "pcontent option \<Rightarrow> pcontent \<Rightarrow> bool" where
  "mappedIdentity None _ = False"
| "mappedIdentity (Some (PSingle a)) (PSingle b) = (a = b)"
| "mappedIdentity (Some (PGroup as)) (PGroup bs) = (as = bs)"
| "mappedIdentity _ _ = False"

text \<open>
  \<^verbatim>\<open>matchNodeName\<close> (line 839), together with the test
  \<^verbatim>\<open>instanceof Y.XmlElement\<close> that guards each of its calls.
\<close>

fun matchNodeName :: "ynode \<Rightarrow> pcontent \<Rightarrow> bool" where
  "matchNodeName (YXmlElement _ _ name _ _) (PSingle p) = (name = typeName p)"
| "matchNodeName _ _ = False"

text \<open>
  \<^verbatim>\<open>equalYTextPText\<close> (lines 600-603). \<^verbatim>\<open>d.attributes[mark.type.name] || {}\<close>
  is the empty object when the delta has no such key or a falsy value under it; the
  formatting values the binding writes are the attribute objects of marks. Of the other
  truthy values \<^verbatim>\<open>equalAttrs\<close> sees what \<^verbatim>\<open>Object.keys\<close> and indexing show: a
  string has its indices as keys and its characters as values, a number or a boolean has
  no keys. \<open>showNat\<close> is the decimal numeral of an index.
\<close>

fun showNat :: "nat \<Rightarrow> string" where
  "showNat n =
     (if n < 10 then [''0123456789'' ! n]
      else showNat (n div 10) @ [''0123456789'' ! (n mod 10)])"

declare showNat.simps [simp del]

fun orEmpty :: "jsval option \<Rightarrow> jsobj" where
  "orEmpty (Some (JObj _ obj)) = obj"
| "orEmpty (Some (JStr s)) = map (\<lambda>i. (showNat i, JStr [s ! i])) [0..<length s]"
| "orEmpty _ = []"

fun marksEvery :: "jsobj \<Rightarrow> pmark list \<Rightarrow> error + bool" where
  "marksEvery dattrs [] = Inr True"
| "marksEvery dattrs (Mark name _ mattrs # ms) =
     (case equalAttrs (orEmpty (objGet dattrs name)) (Some mattrs) of
        Inl e \<Rightarrow> Inl e
      | Inr eq \<Rightarrow> if eq then marksEvery dattrs ms else Inr False)"

fun deltaEvery :: "deltaop list \<Rightarrow> pnode list \<Rightarrow> error + bool" where
  "deltaEvery [] _ = Inr True"
| "deltaEvery (d # delta) [] = Inr False"
| "deltaEvery (d # delta) (p # ps) =
     (let dattrs = (case opAttributes d of None \<Rightarrow> [] | Some a \<Rightarrow> a) in
      if opInsert d = nodeText p \<and> length (objKeys dattrs) = length (marks p)
      then (case marksEvery dattrs (marks p) of
              Inl e \<Rightarrow> Inl e
            | Inr eq \<Rightarrow> if eq then deltaEvery delta ps else Inr False)
      else Inr False)"

definition equalYTextPText :: "ytextitem list \<Rightarrow> pnode list \<Rightarrow> error + bool" where
  "equalYTextPText ytext ptexts =
     (let delta = toDelta ytext in
      if length delta = length ptexts then deltaEvery delta ptexts else Inr False)"

text \<open>
  \<^verbatim>\<open>equalYTypePNode\<close> (lines 609-615). The attribute test passes the attributes of
  the replicated element as the first argument of \<^verbatim>\<open>equalAttrs\<close> and those of the
  local node as the second.
\<close>

lemma size_toArray: "size_list size (toArray cs) \<le> size_list size cs"
  unfolding toArray_def by (induction cs) auto

function (sequential) equalYTypePNode :: "ynode \<Rightarrow> pcontent \<Rightarrow> error + bool"
  and everyEqual :: "ynode list \<Rightarrow> pcontent list \<Rightarrow> error + bool" where
  "equalYTypePNode (YXmlElement i m name yattrs cs) (PSingle pnode) =
     (if name = typeName pnode
      then (let normalizedContent = normalizePNodeContent pnode in
            if length (toArray cs) = length normalizedContent
            then (case equalAttrs yattrs (Some (attrs pnode)) of
                    Inl e \<Rightarrow> Inl e
                  | Inr eq \<Rightarrow> if eq then everyEqual (toArray cs) normalizedContent else Inr False)
            else Inr False)
      else Inr False)"
| "equalYTypePNode (YXmlText i m ytext) (PGroup ptexts) = equalYTextPText ytext ptexts"
| "equalYTypePNode _ _ = Inr False"
| "everyEqual [] _ = Inr True"
| "everyEqual (ychild # ys) [] = Inr False"
| "everyEqual (ychild # ys) (p # ps) =
     (case equalYTypePNode ychild p of
        Inl e \<Rightarrow> Inl e
      | Inr eq \<Rightarrow> if eq then everyEqual ys ps else Inr False)"
  by pat_completeness auto
termination
  apply (relation "measure (\<lambda>x. case x of Inl (y, _) \<Rightarrow> size y | Inr (ys, _) \<Rightarrow> size_list size ys)")
  apply (auto simp: le_imp_less_Suc size_toArray)
  done

subsection \<open>The equality factor\<close>

text \<open>
  \<^verbatim>\<open>computeChildEqualityFactor\<close> (lines 629-660): the number of children matched
  from the left and then from the right, and whether one of them was matched by
  \<^verbatim>\<open>mappedIdentity\<close>. It reads the mapping and changes nothing.
\<close>

datatype equality = Equality (equalityFactor: nat) (foundMappedChild: bool)

function cefLeft :: "ynode list \<Rightarrow> pcontent list \<Rightarrow> nat \<Rightarrow> nat \<Rightarrow> bool \<Rightarrow> error + nat \<times> bool" where
  "cefLeft yChildren pChildren minCnt left found =
     (if left < minCnt
      then (let leftY = yChildren ! left; leftP = pChildren ! left in
            if mappedIdentity (mappingGet leftY) leftP
            then cefLeft yChildren pChildren minCnt (left + 1) True
            else (case equalYTypePNode leftY leftP of
                    Inl e \<Rightarrow> Inl e
                  | Inr eq \<Rightarrow> if eq then cefLeft yChildren pChildren minCnt (left + 1) found
                              else Inr (left, found)))
      else Inr (left, found))"
  by pat_completeness auto
termination
  by (relation "measure (\<lambda>(ys, ps, minCnt, left, found). minCnt - left)") auto

function cefRight :: "ynode list \<Rightarrow> pcontent list \<Rightarrow> nat \<Rightarrow> nat \<Rightarrow> nat \<Rightarrow> bool \<Rightarrow> error + nat \<times> bool" where
  "cefRight yChildren pChildren minCnt left right found =
     (if left + right < minCnt
      then (let rightY = yChildren ! (length yChildren - right - 1);
                rightP = pChildren ! (length pChildren - right - 1) in
            if mappedIdentity (mappingGet rightY) rightP
            then cefRight yChildren pChildren minCnt left (right + 1) True
            else (case equalYTypePNode rightY rightP of
                    Inl e \<Rightarrow> Inl e
                  | Inr eq \<Rightarrow> if eq then cefRight yChildren pChildren minCnt left (right + 1) found
                              else Inr (right, found)))
      else Inr (right, found))"
  by pat_completeness auto
termination
  by (relation "measure (\<lambda>(ys, ps, minCnt, left, right, found). minCnt - left - right)") auto

definition computeChildEqualityFactor :: "ynode \<Rightarrow> pnode \<Rightarrow> error + equality" where
  "computeChildEqualityFactor ytype pnode =
     (let yChildren = toArray (childList ytype);
          pChildren = normalizePNodeContent pnode;
          minCnt = min (length yChildren) (length pChildren) in
      case cefLeft yChildren pChildren minCnt 0 False of
        Inl e \<Rightarrow> Inl e
      | Inr (left, found) \<Rightarrow>
          (case cefRight yChildren pChildren minCnt left 0 found of
             Inl e \<Rightarrow> Inl e
           | Inr (right, found') \<Rightarrow> Inr (Equality (left + right) found')))"

subsection \<open>Creating replicated types from local content\<close>

text \<open>
  \<^verbatim>\<open>marksToAttributes\<close> (lines 702-710), \<^verbatim>\<open>createTypeFromTextNodes\<close>,
  \<^verbatim>\<open>createTypeFromElementNode\<close> and \<^verbatim>\<open>createTypeFromTextOrElementNode\<close>
  (lines 518-555). A created element copies the attributes that are not null and not
  \<^verbatim>\<open>'ychange'\<close>; every created type is entered in the mapping. The item of a created
  type takes the next clock value of the document (Yjs numbers the items it integrates;
  only the types are numbered here).
\<close>

definition marksToAttributes :: "pmark list \<Rightarrow> jsobj" where
  "marksToAttributes ms =
     foldl (\<lambda>pattrs mark. case mark of Mark name r a \<Rightarrow>
              if name \<noteq> ''ychange'' then objSet pattrs name (JObj r a) else pattrs) [] ms"

definition initialAttributes :: "jsobj \<Rightarrow> jsobj" where
  "initialAttributes pattrs =
     foldl (\<lambda>a key. if \<not> strictEq (objGet pattrs key) (Some JNull) \<and> key \<noteq> ''ychange''
                     then objSet a key (the (objGet pattrs key)) else a) [] (objKeys pattrs)"

fun csize :: "pcontent \<Rightarrow> nat" where
  "csize (PSingle p) = Suc (size p)"
| "csize (PGroup ps) = sum_list (map size ps)"

lemma size_takeWhile_dropWhile:
  "sum_list (map size (takeWhile P c)) + size_list size (dropWhile P c) \<le> size_list size (c :: pnode list)"
  by (induction c) auto

lemma csize_normalizeContent:
  "sum_list (map csize (normalizeContent c)) \<le> size_list size c"
proof (induction c rule: normalizeContent.induct)
  case 1
  show ?case by simp
next
  case (2 n c)
  show ?case
  proof (cases "isText n")
    case True
    with 2 show ?thesis
      using size_takeWhile_dropWhile[of isText c] by simp
  next
    case False
    with 2 show ?thesis by simp
  qed
qed

lemma csize_normalizePNodeContent:
  "sum_list (map csize (normalizePNodeContent p)) \<le> size p"
  unfolding normalizePNodeContent_def
  using csize_normalizeContent[of "content p"] by (cases p) auto

lemma csize_normalize_PNode:
  "sum_list (map csize (normalizePNodeContent (PNode r n a c))) < Suc (size_list size c)"
  unfolding normalizePNodeContent_def
  using csize_normalizeContent[of c] by simp

lemma csize_nth: "i < length pcs \<Longrightarrow> csize (pcs ! i) \<le> sum_list (map csize pcs)"
  by (induction pcs arbitrary: i) (auto simp: nth_Cons trans_le_add2 split: nat.splits)

lemma csize_nth_PSingle:
  "PSingle p = pcs ! i \<Longrightarrow> i < length pcs \<Longrightarrow> size p < sum_list (map csize pcs)"
  using csize_nth[of i pcs] by (metis Suc_le_lessD csize.simps(1))

function (sequential) createTypeFromTextOrElementNode :: "yjs \<Rightarrow> ydoc \<Rightarrow> pcontent \<Rightarrow> ynode \<times> ydoc"
  and createTypes :: "yjs \<Rightarrow> ydoc \<Rightarrow> pcontent list \<Rightarrow> ynode list \<times> ydoc" where
  "createTypeFromTextOrElementNode lib y (PGroup nodes) =
     (let (i, y1) = nextItem y;
          delta = map (\<lambda>node. InsertOp (nodeText node) (marksToAttributes (marks node))) nodes
      in (YXmlText i (Some nodes) (applyDelta lib [] delta), y1))"
| "createTypeFromTextOrElementNode lib y (PSingle (PNode r name a c)) =
     (let (i, y1) = nextItem y;
          (cs, y2) = createTypes lib y1 (normalizePNodeContent (PNode r name a c))
      in (YXmlElement i (Some (PNode r name a c)) name (initialAttributes a) cs, y2))"
| "createTypeFromTextOrElementNode lib y (PSingle (PText r t ms)) =
     (let (i, y1) = nextItem y
      in (YXmlElement i (Some (PText r t ms)) ''text'' [] [], y1))"
| "createTypes lib y [] = ([], y)"
| "createTypes lib y (p # ps) =
     (let (t, y1) = createTypeFromTextOrElementNode lib y p;
          (ts, y2) = createTypes lib y1 ps
      in (t # ts, y2))"
  by pat_completeness auto
termination
  apply (relation "inv_image (less_than <*lex*> less_than)
     (\<lambda>x. case x of Inl (_, _, p) \<Rightarrow> (csize p, 0)
                  | Inr (_, _, ps) \<Rightarrow> (sum_list (map csize ps), Suc (length ps)))")
  apply (auto simp: csize_normalize_PNode less_SucI)
  done

subsection \<open>The forward reconciler\<close>

text \<open>
  The attribute pass of \<^verbatim>\<open>updateYFragment\<close> (lines 725-743). \<open>yDomAttrs\<close> is the
  object \<^verbatim>\<open>getAttributes()\<close> returned before the pass; the state of the two
  loops is the attributes of the element and the mutations so far.
\<close>

definition setAttribute :: "jsobj \<times> mutation list \<Rightarrow> string \<Rightarrow> jsval \<Rightarrow> jsobj \<times> mutation list" where
  "setAttribute st key v = (objSet (fst st) key v, snd st @ [SetAttribute key v])"

definition removeAttribute :: "jsobj \<times> mutation list \<Rightarrow> string \<Rightarrow> jsobj \<times> mutation list" where
  "removeAttribute st key =
     (objRemove (fst st) key,
      snd st @ (if objGet (fst st) key = None then [] else [RemoveAttribute key]))"

fun setLoop :: "string list \<Rightarrow> jsobj \<Rightarrow> jsobj \<Rightarrow> jsobj \<times> mutation list \<Rightarrow> jsobj \<times> mutation list" where
  "setLoop [] yDomAttrs pAttrs st = st"
| "setLoop (key # keys) yDomAttrs pAttrs st =
     setLoop keys yDomAttrs pAttrs
       (if \<not> strictEq (objGet pAttrs key) (Some JNull)
        then (if \<not> strictEq (objGet yDomAttrs key) (objGet pAttrs key) \<and> key \<noteq> ''ychange''
              then setAttribute st key (the (objGet pAttrs key))
              else st)
        else removeAttribute st key)"

fun removeLoop :: "string list \<Rightarrow> jsobj \<Rightarrow> jsobj \<times> mutation list \<Rightarrow> jsobj \<times> mutation list" where
  "removeLoop [] pAttrs st = st"
| "removeLoop (key # keys) pAttrs st =
     removeLoop keys pAttrs (if objGet pAttrs key = None then removeAttribute st key else st)"

definition updateAttributes :: "jsobj \<Rightarrow> jsobj \<Rightarrow> jsobj \<times> mutation list" where
  "updateAttributes yDomAttrs pAttrs =
     removeLoop (objKeys yDomAttrs) pAttrs
       (setLoop (objKeys pAttrs) yDomAttrs pAttrs (yDomAttrs, []))"

text \<open>
  \<^verbatim>\<open>ytextTrans\<close> (lines 662-683) and \<^verbatim>\<open>updateYText\<close> (lines 692-700). The
  loop of \<^verbatim>\<open>ytextTrans\<close> goes through the items from the first to the last, with
  the string and the attribute object built so far.
\<close>

fun ytextTransLoop :: "ytextitem list \<Rightarrow> string \<Rightarrow> jsobj \<Rightarrow> string \<times> jsobj" where
  "ytextTransLoop [] str nAttrs = (str, nAttrs)"
| "ytextTransLoop (TextItem del c # n) str nAttrs =
     (if del then ytextTransLoop n str nAttrs
      else (case c of
              ContentString s \<Rightarrow> ytextTransLoop n (str @ s) nAttrs
            | ContentFormat key v \<Rightarrow> ytextTransLoop n str (objSet nAttrs key JNull)))"

definition ytextTrans :: "ytextitem list \<Rightarrow> string \<times> jsobj" where
  "ytextTrans its = ytextTransLoop its [] []"

definition objectAssign :: "jsobj \<Rightarrow> jsobj \<Rightarrow> jsobj" where
  "objectAssign target source = foldl (\<lambda>obj key. objSet obj key (the (objGet source key))) target (objKeys source)"

definition updateYText :: "yjs \<Rightarrow> ynode \<Rightarrow> pnode list \<Rightarrow> ynode \<times> mutation list" where
  "updateYText lib ytext ptexts =
     (case ytext of
        YXmlText i m its \<Rightarrow>
          (let (str, nAttrs) = ytextTrans its;
               content = map (\<lambda>p. (nodeText p, objectAssign nAttrs (marksToAttributes (marks p)))) ptexts;
               (index, remove, ins) = simpleDiff lib str (concat (map fst content));
               its1 = textDelete lib its index remove;
               its2 = textInsert lib its1 index ins;
               its3 = applyDelta lib its2 (map (\<lambda>c. RetainOp (length (fst c)) (snd c)) content)
           in (YXmlText i (Some ptexts) its3,
               (if remove > 0 then [TextDelete index remove] else [])
               @ (if ins \<noteq> [] then [TextInsert index ins] else [])
               @ [TextFormat]))
      | _ \<Rightarrow> (ytext, []))"

text \<open>
  The two scans of \<^verbatim>\<open>updateYFragment\<close> (lines 753-777). \<open>cs\<close> is the child list
  of the fragment; the array \<^verbatim>\<open>yChildren\<close> of the source is \<open>toArray cs\<close>, whose
  entries the scans update in place when they set a mapping entry.
\<close>

function scanLeft :: "ynode list \<Rightarrow> pcontent list \<Rightarrow> nat \<Rightarrow> nat \<Rightarrow> error + ynode list \<times> nat" where
  "scanLeft cs pChildren minCnt left =
     (if left < minCnt
      then (let leftY = toArray cs ! left; leftP = pChildren ! left in
            if \<not> mappedIdentity (mappingGet leftY) leftP
            then (case equalYTypePNode leftY leftP of
                    Inl e \<Rightarrow> Inl e
                  | Inr eq \<Rightarrow>
                      if eq then scanLeft (replaceVisible left (mappingSet leftY leftP) cs) pChildren minCnt (left + 1)
                      else Inr (cs, left))
            else scanLeft cs pChildren minCnt (left + 1))
      else Inr (cs, left))"
  by pat_completeness auto
termination
  by (relation "measure (\<lambda>(cs, ps, minCnt, left). minCnt - left)") auto

function scanRight :: "ynode list \<Rightarrow> pcontent list \<Rightarrow> nat \<Rightarrow> nat \<Rightarrow> nat \<Rightarrow> error + ynode list \<times> nat" where
  "scanRight cs pChildren minCnt left right =
     (if right + left + 1 < minCnt
      then (let yChildCnt = length (toArray cs); pChildCnt = length pChildren;
                rightY = toArray cs ! (yChildCnt - right - 1);
                rightP = pChildren ! (pChildCnt - right - 1) in
            if \<not> mappedIdentity (mappingGet rightY) rightP
            then (case equalYTypePNode rightY rightP of
                    Inl e \<Rightarrow> Inl e
                  | Inr eq \<Rightarrow>
                      if eq then scanRight (replaceVisible (yChildCnt - right - 1) (mappingSet rightY rightP) cs)
                                   pChildren minCnt left (right + 1)
                      else Inr (cs, right))
            else scanRight cs pChildren minCnt left (right + 1))
      else Inr (cs, right))"
  by pat_completeness auto
termination
  by (relation "measure (\<lambda>(cs, ps, minCnt, left, right). minCnt - left - right)") auto

text \<open>
  The choice between the left and the right pair in the middle loop (lines 791-806).
  When both pairs are elements with matching names, the equality factors decide; a name
  matches only a node, so the local content of both pairs is a node there.
\<close>

definition chooseUpdate :: "ynode \<Rightarrow> pcontent \<Rightarrow> ynode \<Rightarrow> pcontent \<Rightarrow> error + bool \<times> bool" where
  "chooseUpdate leftY leftP rightY rightP =
     (let updateLeft = matchNodeName leftY leftP; updateRight = matchNodeName rightY rightP in
      if updateLeft \<and> updateRight
      then (case (leftP, rightP) of
              (PSingle lp, PSingle rp) \<Rightarrow>
                (case computeChildEqualityFactor leftY lp of
                   Inl e \<Rightarrow> Inl e
                 | Inr equalityLeft \<Rightarrow>
                    (case computeChildEqualityFactor rightY rp of
                       Inl e \<Rightarrow> Inl e
                     | Inr equalityRight \<Rightarrow>
                         if foundMappedChild equalityLeft \<and> \<not> foundMappedChild equalityRight
                         then Inr (True, False)
                         else if \<not> foundMappedChild equalityLeft \<and> foundMappedChild equalityRight
                         then Inr (False, True)
                         else if equalityFactor equalityLeft < equalityFactor equalityRight
                         then Inr (False, True)
                         else Inr (True, False)))
            | _ \<Rightarrow> Inr (updateLeft, updateRight))
      else Inr (updateLeft, updateRight))"

text \<open>
  The end of \<^verbatim>\<open>updateYFragment\<close> (lines 820-830): delete the replicated children
  left over, insert types created from the local children left over.
\<close>

definition finish :: "yjs \<Rightarrow> ydoc \<Rightarrow> ynode list \<Rightarrow> pcontent list \<Rightarrow> nat \<Rightarrow> nat \<Rightarrow> nat
    \<Rightarrow> ydoc \<times> ynode list \<times> mutation list" where
  "finish lib y cs pChildren yChildCnt left right =
     (let pChildCnt = length pChildren;
          yDelLen = yChildCnt - left - right;
          (cs1, log1) = (if yDelLen > 0 then (typeListDelete left yDelLen cs, [DeleteChildren left yDelLen])
                         else (cs, []))
      in if left + right < pChildCnt
         then (let (ins, y1) = createTypes lib y (take (pChildCnt - right - left) (drop left pChildren))
               in (y1, typeListInsert left ins cs1, log1 @ [InsertChildren left (length ins)]))
         else (y, cs1, log1))"

text \<open>
  \<^verbatim>\<open>updateYFragment\<close> (lines 719-832), applied to a type below the root. The
  name test and the attribute pass come first; \<open>updateChildren\<close> is the rest of the
  function (lines 744-831: the two scans, the middle loop and the end), and \<open>middle\<close>
  the loop of lines 780-819, which calls \<^verbatim>\<open>updateYFragment\<close> on a child pair. A
  text type or a hook has no \<^verbatim>\<open>toArray\<close>. In the loop \<open>cs\<close> is the current child
  list: the source reads \<^verbatim>\<open>yChildren[left]\<close> and
  \<^verbatim>\<open>yChildren[yChildCnt - right - 1]\<close> from the array taken before the loop, whose
  entries at the positions not yet consumed are the children still at those positions.
\<close>

function (sequential) updateYFragment :: "yjs \<Rightarrow> ydoc \<Rightarrow> ynode \<Rightarrow> pnode
      \<Rightarrow> error + ydoc \<times> ynode \<times> mutation list"
  and updateChildren :: "yjs \<Rightarrow> ydoc \<Rightarrow> ynode list \<Rightarrow> pnode \<Rightarrow> mutation list
      \<Rightarrow> error + ydoc \<times> ynode list \<times> mutation list"
  and middle :: "yjs \<Rightarrow> ydoc \<Rightarrow> ynode list \<Rightarrow> pcontent list \<Rightarrow> nat \<Rightarrow> nat \<Rightarrow> nat \<Rightarrow> mutation list
      \<Rightarrow> error + ydoc \<times> ynode list \<times> nat \<times> nat \<times> mutation list" where
  "updateYFragment lib y (YXmlElement i m name yDomAttrs cs) pNode =
     (if name \<noteq> typeName pNode
      then Inl NodeNameMismatch
      else (let (a1, log1) = updateAttributes yDomAttrs (attrs pNode)
            in case updateChildren lib y cs pNode log1 of
                 Inl e \<Rightarrow> Inl e
               | Inr (y1, cs1, log2) \<Rightarrow> Inr (y1, YXmlElement i (Some pNode) name a1 cs1, log2)))"
| "updateYFragment lib y (YXmlText i m its) pNode = Inl TypeError"
| "updateYFragment lib y (YXmlHook i) pNode = Inl TypeError"
| "updateChildren lib y cs pNode log =
     (let pChildren = normalizePNodeContent pNode;
          pChildCnt = length pChildren;
          yChildCnt = length (toArray cs);
          minCnt = min pChildCnt yChildCnt
      in case scanLeft cs pChildren minCnt 0 of
           Inl e \<Rightarrow> Inl e
         | Inr (cs1, left) \<Rightarrow>
            (case scanRight cs1 pChildren minCnt left 0 of
               Inl e \<Rightarrow> Inl e
             | Inr (cs2, right) \<Rightarrow>
                (case middle lib y cs2 pChildren yChildCnt left right log of
                   Inl e \<Rightarrow> Inl e
                 | Inr (y1, cs3, left1, right1, log2) \<Rightarrow>
                    (let (y2, cs4, log3) = finish lib y1 cs3 pChildren yChildCnt left1 right1
                     in Inr (y2, cs4, log2 @ log3)))))"
| "middle lib y cs pChildren yChildCnt left right log =
     (if left + right < yChildCnt \<and> left + right < length pChildren
      then (let pChildCnt = length pChildren;
                leftY = toArray cs ! left;
                leftP = pChildren ! left;
                rightY = toArray cs ! (yChildCnt - right - 1);
                rightP = pChildren ! (pChildCnt - right - 1)
            in case (isXmlText leftY, leftP) of
                 (True, PGroup ptexts) \<Rightarrow>
                   (case equalYTextPText (textItems leftY) ptexts of
                      Inl e \<Rightarrow> Inl e
                    | Inr eq \<Rightarrow>
                        if eq then middle lib y cs pChildren yChildCnt (left + 1) right log
                        else (let (t, tlog) = updateYText lib leftY ptexts
                              in middle lib y (replaceVisible left t cs) pChildren yChildCnt (left + 1) right
                                   (log @ tlog)))
               | _ \<Rightarrow>
                   (case chooseUpdate leftY leftP rightY rightP of
                      Inl e \<Rightarrow> Inl e
                    | Inr (updateLeft, updateRight) \<Rightarrow>
                        if updateLeft
                        then (case leftP of
                                PSingle lp \<Rightarrow>
                                  (case updateYFragment lib y leftY lp of
                                     Inl e \<Rightarrow> Inl e
                                   | Inr (y1, t, ulog) \<Rightarrow>
                                       middle lib y1 (replaceVisible left t cs) pChildren yChildCnt
                                         (left + 1) right (log @ ulog))
                              | PGroup _ \<Rightarrow> Inl UnexpectedCase)
                        else if updateRight
                        then (case rightP of
                                PSingle rp \<Rightarrow>
                                  (case updateYFragment lib y rightY rp of
                                     Inl e \<Rightarrow> Inl e
                                   | Inr (y1, t, ulog) \<Rightarrow>
                                       middle lib y1 (replaceVisible (yChildCnt - right - 1) t cs) pChildren
                                         yChildCnt left (right + 1) (log @ ulog))
                              | PGroup _ \<Rightarrow> Inl UnexpectedCase)
                        else (let (t, y1) = createTypeFromTextOrElementNode lib y leftP;
                                  cs1 = typeListInsert left [t] (typeListDelete left 1 cs)
                              in middle lib y1 cs1 pChildren yChildCnt (left + 1) right
                                   (log @ [DeleteChildren left 1, InsertChildren left 1]))))
      else Inr (y, cs, left, right, log))"
  by pat_completeness auto
termination
  apply (relation "inv_image (less_than <*lex*> less_than <*lex*> less_than)
     (\<lambda>x. case x of
        Inl (_, _, _, pNode) \<Rightarrow> (size pNode, 2, 0)
      | Inr (Inl (_, _, _, pNode, _)) \<Rightarrow> (size pNode, 1, 0)
      | Inr (Inr (_, _, _, pChildren, _, left, right, _)) \<Rightarrow>
          (sum_list (map csize pChildren), 0, length pChildren - left - right))")
  apply (auto simp: csize_normalizePNodeContent le_imp_less_or_eq intro: csize_nth_PSingle)
  done

text \<open>
  \<^verbatim>\<open>updateYFragment\<close> applied to the bound root, as \<^verbatim>\<open>_prosemirrorChanged\<close>
  calls it (line 388): a \<^verbatim>\<open>Y.XmlFragment\<close> is not an element, so there is no name
  test and no attribute pass.
\<close>

fun updateYFragmentRoot :: "yjs \<Rightarrow> ydoc \<Rightarrow> yfragment \<Rightarrow> pnode
    \<Rightarrow> error + ydoc \<times> yfragment \<times> mutation list" where
  "updateYFragmentRoot lib y (YXmlFragment m cs) pNode =
     (case updateChildren lib y cs pNode [] of
        Inl e \<Rightarrow> Inl e
      | Inr (y1, cs1, log) \<Rightarrow> Inr (y1, YXmlFragment (Some pNode) cs1, log))"

text \<open>
  Two relations used to state what a pass of \<^verbatim>\<open>updateYFragment\<close> leaves behind. A
  replicated child is \<open>linked\<close> to a local child when one of the two tests of the scans
  (lines 756-757, 769-770) accepts the pair: the mapping entry of the child is the local
  child itself, or \<^verbatim>\<open>equalYTypePNode\<close> returns true. \<open>scanned ys ps l r\<close>: the first
  \<open>l\<close> and the last \<open>r\<close> pairs of the two child arrays are linked.
\<close>

definition linked :: "ynode \<Rightarrow> pcontent \<Rightarrow> bool" where
  "linked t p = (mappedIdentity (mappingGet t) p \<or> equalYTypePNode t p = Inr True)"

definition scanned :: "ynode list \<Rightarrow> pcontent list \<Rightarrow> nat \<Rightarrow> nat \<Rightarrow> bool" where
  "scanned ys ps l r =
     (l + r \<le> length ys \<and> l + r \<le> length ps
      \<and> (\<forall>i<l. linked (ys ! i) (ps ! i))
      \<and> (\<forall>j<r. linked (ys ! (length ys - 1 - j)) (ps ! (length ps - 1 - j))))"

subsection \<open>The reverse materializer\<close>

text \<open>
  ProseMirror's schema is a parameter: \<^verbatim>\<open>schema.node\<close>, \<^verbatim>\<open>schema.text\<close> and
  \<^verbatim>\<open>schema.mark\<close> return the node or mark, or \<open>None\<close> when they throw.
\<close>

datatype pschema = Schema
  (schemaNode: "string \<Rightarrow> jsobj \<Rightarrow> pnode list \<Rightarrow> pnode option")
  (schemaText: "string \<Rightarrow> pmark list \<Rightarrow> pnode option")
  (schemaMark: "string \<Rightarrow> jsval \<Rightarrow> pmark option")

text \<open>
  \<^verbatim>\<open>isVisible\<close> (line 49). \<^verbatim>\<open>Y.isDeleted(ds, id)\<close> is membership of the ID in
  the delete set. \<^verbatim>\<open>Y.typeListToArraySnapshot\<close> keeps the children whose item is
  visible in the snapshot it is given; the child array of an element is taken from it
  when both snapshots are given, from \<^verbatim>\<open>toArray()\<close> otherwise (lines 452-456).
\<close>

fun isVisible :: "yitem \<Rightarrow> snapshot option \<Rightarrow> bool" where
  "isVisible i None = (\<not> itemDeleted i)"
| "isVisible i (Some snapshot) =
     (case map_of (sv snapshot) (fst (itemId i)) of
        None \<Rightarrow> False
      | Some c \<Rightarrow> c > snd (itemId i) \<and> itemId i \<notin> set (ds snapshot))"

definition nodeVisible :: "ynode \<Rightarrow> snapshot option \<Rightarrow> bool" where
  "nodeVisible t s = isVisible (item t) s"

definition typeListToArraySnapshot :: "ynode list \<Rightarrow> snapshot \<Rightarrow> ynode list" where
  "typeListToArraySnapshot cs s = filter (\<lambda>c. nodeVisible c (Some s)) cs"

definition inChildArray :: "snapshot option \<Rightarrow> snapshot option \<Rightarrow> ynode \<Rightarrow> bool" where
  "inChildArray snapshot prevSnapshot c =
     (case (snapshot, prevSnapshot) of
        (Some s, Some p) \<Rightarrow> nodeVisible c (Some (Snapshot (ds p) (sv s)))
      | _ \<Rightarrow> \<not> deleted c)"

text \<open>
  The attributes handed to \<^verbatim>\<open>schema.node\<close> (lines 458-465). \<^verbatim>\<open>computeYChange\<close>
  is optional and may throw (\<open>None\<close>); without it the annotation is
  \<^verbatim>\<open>{ type: 'removed' }\<close> or \<^verbatim>\<open>{ type: 'added' }\<close>.
\<close>

type_synonym computeYChange = "string \<Rightarrow> ID \<Rightarrow> jsval option"

definition ychangeValue :: "computeYChange option \<Rightarrow> string \<Rightarrow> ID \<Rightarrow> jsval option" where
  "ychangeValue computeYChange ty i =
     (case computeYChange of
        None \<Rightarrow> Some (JObj 0 [(''type'', JStr ty)])
      | Some f \<Rightarrow> f ty i)"

definition renderAttributes :: "yjs \<Rightarrow> yitem \<Rightarrow> jsobj \<Rightarrow> snapshot option \<Rightarrow> snapshot option
    \<Rightarrow> computeYChange option \<Rightarrow> jsobj option" where
  "renderAttributes lib i yattrs snapshot prevSnapshot computeYChange =
     (case snapshot of
        None \<Rightarrow> Some yattrs
      | Some s \<Rightarrow>
          (let a = getAttributesSnapshot lib yattrs s in
           if \<not> isVisible i snapshot
           then map_option (objSet a ''ychange'') (ychangeValue computeYChange ''removed'' (itemId i))
           else if \<not> isVisible i prevSnapshot
           then map_option (objSet a ''ychange'') (ychangeValue computeYChange ''added'' (itemId i))
           else Some a))"

text \<open>
  \<^verbatim>\<open>createTextNodesFromYText\<close> (lines 489-510): one text node per delta operation;
  when the schema throws, the text type is deleted and the result is \<^verbatim>\<open>null\<close>. The
  function does not touch the mapping. \<^verbatim>\<open>text.toDelta\<close> runs before the
  \<^verbatim>\<open>try\<close> block; it is taken here as a function that returns (a
  \<^verbatim>\<open>computeYChange\<close> that throws inside it would leave
  \<^verbatim>\<open>createTextNodesFromYText\<close> as an exception, a case the model does not have).
\<close>

fun createMarks :: "pschema \<Rightarrow> jsobj \<Rightarrow> string list \<Rightarrow> pmark list option" where
  "createMarks schema dattrs [] = Some []"
| "createMarks schema dattrs (markName # ks) =
     (case schemaMark schema markName (the (objGet dattrs markName)) of
        None \<Rightarrow> None
      | Some m \<Rightarrow> map_option ((#) m) (createMarks schema dattrs ks))"

fun createTextNodes :: "pschema \<Rightarrow> deltaop list \<Rightarrow> pnode list option" where
  "createTextNodes schema [] = Some []"
| "createTextNodes schema (delta # deltas) =
     (let dattrs = (case opAttributes delta of None \<Rightarrow> [] | Some a \<Rightarrow> a) in
      case createMarks schema dattrs (objKeys dattrs) of
        None \<Rightarrow> None
      | Some ms \<Rightarrow>
          (case schemaText schema (opInsert delta) ms of
             None \<Rightarrow> None
           | Some n \<Rightarrow> map_option ((#) n) (createTextNodes schema deltas)))"

definition createTextNodesFromYText :: "yjs \<Rightarrow> ynode \<Rightarrow> pschema \<Rightarrow> snapshot option \<Rightarrow> snapshot option
    \<Rightarrow> pnode list option \<times> ynode" where
  "createTextNodesFromYText lib ytext schema snapshot prevSnapshot =
     (let deltas = (if snapshot = None \<and> prevSnapshot = None then toDelta (textItems ytext)
                    else toDeltaSnapshot lib (textItems ytext) snapshot prevSnapshot) in
      case createTextNodes schema deltas of
        Some nodes \<Rightarrow> (Some nodes, ytext)
      | None \<Rightarrow> (None, itemDelete ytext))"

text \<open>
  \<^verbatim>\<open>createNodeIfNotExists\<close> (lines 411-421) and \<^verbatim>\<open>createNodeFromYElement\<close>
  (lines 433-477). \<open>createChildren\<close> is the \<^verbatim>\<open>forEach(createChildren)\<close> over the
  child array: it walks the child list, handles the children that are in the array and
  writes each back as the source left it (mapping entry set, or deleted). A child that is
  neither an element nor a text type has no \<^verbatim>\<open>toDelta\<close>. The \<^verbatim>\<open>try\<close> block covers
  the attributes and \<^verbatim>\<open>schema.node\<close>; its \<^verbatim>\<open>catch\<close> deletes the element and its
  mapping entry and returns \<^verbatim>\<open>null\<close>.
\<close>

lemma size_list_mem: "c \<in> set cs \<Longrightarrow> size (c :: ynode) < Suc (size_list size cs)"
  by (induction cs) auto

function (sequential) createNodeIfNotExists :: "yjs \<Rightarrow> ynode \<Rightarrow> pschema \<Rightarrow> snapshot option \<Rightarrow> snapshot option
      \<Rightarrow> computeYChange option \<Rightarrow> error + pcontent option \<times> ynode"
  and createNodeFromYElement :: "yjs \<Rightarrow> ynode \<Rightarrow> pschema \<Rightarrow> snapshot option \<Rightarrow> snapshot option
      \<Rightarrow> computeYChange option \<Rightarrow> error + pnode option \<times> ynode"
  and createChildren :: "yjs \<Rightarrow> ynode list \<Rightarrow> pschema \<Rightarrow> snapshot option \<Rightarrow> snapshot option
      \<Rightarrow> computeYChange option \<Rightarrow> error + pnode list \<times> ynode list" where
  "createNodeIfNotExists lib el schema snapshot prevSnapshot computeYChange =
     (case mappingGet el of
        Some node \<Rightarrow> Inr (Some node, el)
      | None \<Rightarrow>
          if isXmlElement el
          then (case createNodeFromYElement lib el schema snapshot prevSnapshot computeYChange of
                  Inl e \<Rightarrow> Inl e
                | Inr (n, el') \<Rightarrow> Inr (map_option PSingle n, el'))
          else Inl MethodUnimplemented)"
| "createNodeFromYElement lib (YXmlElement i m name yattrs cs) schema snapshot prevSnapshot computeYChange =
     (case createChildren lib cs schema snapshot prevSnapshot computeYChange of
        Inl e \<Rightarrow> Inl e
      | Inr (children, cs') \<Rightarrow>
          (case renderAttributes lib i yattrs snapshot prevSnapshot computeYChange of
             None \<Rightarrow> Inr (None, itemDelete (YXmlElement i None name yattrs cs'))
           | Some a \<Rightarrow>
               (case schemaNode schema name a children of
                  None \<Rightarrow> Inr (None, itemDelete (YXmlElement i None name yattrs cs'))
                | Some node \<Rightarrow> Inr (Some node, YXmlElement i (Some node) name yattrs cs'))))"
| "createNodeFromYElement lib _ schema snapshot prevSnapshot computeYChange = Inl TypeError"
| "createChildren lib [] schema snapshot prevSnapshot computeYChange = Inr ([], [])"
| "createChildren lib (type # cs) schema snapshot prevSnapshot computeYChange =
     (if inChildArray snapshot prevSnapshot type
      then (case (if isXmlElement type
                  then (case createNodeIfNotExists lib type schema snapshot prevSnapshot computeYChange of
                          Inl e \<Rightarrow> Inl e
                        | Inr (Some (PSingle n), type') \<Rightarrow> Inr ([n], type')
                        | Inr (_, type') \<Rightarrow> Inr ([], type'))
                  else if isXmlText type
                  then (case createTextNodesFromYText lib type schema snapshot prevSnapshot of
                          (Some ns, type') \<Rightarrow> Inr (ns, type')
                        | (None, type') \<Rightarrow> Inr ([], type'))
                  else Inl TypeError) of
              Inl e \<Rightarrow> Inl e
            | Inr (ns, type') \<Rightarrow>
                (case createChildren lib cs schema snapshot prevSnapshot computeYChange of
                   Inl e \<Rightarrow> Inl e
                 | Inr (children, cs') \<Rightarrow> Inr (ns @ children, type' # cs')))
      else (case createChildren lib cs schema snapshot prevSnapshot computeYChange of
              Inl e \<Rightarrow> Inl e
            | Inr (children, cs') \<Rightarrow> Inr (children, type # cs')))"
  by pat_completeness auto
termination
  apply (relation "inv_image (less_than <*lex*> less_than)
     (\<lambda>x. case x of
        Inl (_, el, _) \<Rightarrow> (size el, 1)
      | Inr (Inl (_, el, _)) \<Rightarrow> (size el, 0)
      | Inr (Inr (_, cs, _)) \<Rightarrow> (size_list size cs, 2))")
  apply auto
  done

text \<open>
  \<^verbatim>\<open>unrenderSnapshot\<close> (lines 284-293): with a new mapping,
  \<^verbatim>\<open>createNodeFromYElement\<close> on every child of the bound fragment, the
  \<^verbatim>\<open>null\<close> results dropped.
\<close>

fun createAll :: "yjs \<Rightarrow> ynode list \<Rightarrow> pschema \<Rightarrow> error + pnode list \<times> ynode list" where
  "createAll lib [] schema = Inr ([], [])"
| "createAll lib (t # cs) schema =
     (if \<not> deleted t
      then (case createNodeFromYElement lib t schema None None None of
              Inl e \<Rightarrow> Inl e
            | Inr (n, t') \<Rightarrow>
                (case createAll lib cs schema of
                   Inl e \<Rightarrow> Inl e
                 | Inr (ns, cs') \<Rightarrow> Inr ((case n of None \<Rightarrow> ns | Some node \<Rightarrow> node # ns), t' # cs')))
      else (case createAll lib cs schema of
              Inl e \<Rightarrow> Inl e
            | Inr (ns, cs') \<Rightarrow> Inr (ns, t # cs')))"

fun unrenderSnapshot :: "yjs \<Rightarrow> yfragment \<Rightarrow> pschema \<Rightarrow> error + pnode list \<times> yfragment" where
  "unrenderSnapshot lib (YXmlFragment m cs) schema =
     (case createAll lib (map newMapping cs) schema of
        Inl e \<Rightarrow> Inl e
      | Inr (fragmentContent, cs') \<Rightarrow> Inr (fragmentContent, YXmlFragment None cs'))"

text \<open>
  \<^verbatim>\<open>_renderSnapshot\<close> (lines 337-345): the children visible in the snapshot made of
  the older delete set and the newer state vector; a child that is deleted and visible
  in neither snapshot gives \<^verbatim>\<open>null\<close>, every other child is created with a
  \<^verbatim>\<open>new Map()\<close> of its own, which is dropped afterwards.
\<close>

fun renderAll :: "yjs \<Rightarrow> ynode list \<Rightarrow> pschema \<Rightarrow> snapshot \<Rightarrow> snapshot \<Rightarrow> computeYChange
    \<Rightarrow> error + pnode list \<times> ynode list" where
  "renderAll lib [] schema snapshot prevSnapshot computeYChange = Inr ([], [])"
| "renderAll lib (t # cs) schema snapshot prevSnapshot computeYChange =
     (if nodeVisible t (Some (Snapshot (ds prevSnapshot) (sv snapshot)))
         \<and> (\<not> deleted t \<or> nodeVisible t (Some snapshot) \<or> nodeVisible t (Some prevSnapshot))
      then (case createNodeFromYElement lib t schema (Some snapshot) (Some prevSnapshot)
                   (Some computeYChange) of
              Inl e \<Rightarrow> Inl e
            | Inr (n, t') \<Rightarrow>
                (case renderAll lib cs schema snapshot prevSnapshot computeYChange of
                   Inl e \<Rightarrow> Inl e
                 | Inr (ns, cs') \<Rightarrow>
                     Inr ((case n of None \<Rightarrow> ns | Some node \<Rightarrow> node # ns), newMapping t' # cs')))
      else (case renderAll lib cs schema snapshot prevSnapshot computeYChange of
              Inl e \<Rightarrow> Inl e
            | Inr (ns, cs') \<Rightarrow> Inr (ns, t # cs')))"

fun renderSnapshot :: "yjs \<Rightarrow> yfragment \<Rightarrow> pschema \<Rightarrow> snapshot \<Rightarrow> snapshot \<Rightarrow> computeYChange
    \<Rightarrow> error + pnode list \<times> yfragment" where
  "renderSnapshot lib (YXmlFragment m cs) schema snapshot prevSnapshot computeYChange =
     (case renderAll lib (map newMapping cs) schema snapshot prevSnapshot computeYChange of
        Inl e \<Rightarrow> Inl e
      | Inr (fragmentContent, cs') \<Rightarrow> Inr (fragmentContent, YXmlFragment None cs'))"

subsection \<open>Structural equality of local nodes, and sample library instances\<close>

text \<open>
  Two local trees are structurally equal when they agree up to the references of their
  objects: \<open>eraseRefs\<close> replaces every reference by 0.
\<close>

fun eraseVal :: "jsval \<Rightarrow> jsval" where
  "eraseVal (JObj r obj) = JObj 0 (map (\<lambda>kv. (fst kv, eraseVal (snd kv))) obj)"
| "eraseVal v = v"

fun eraseMark :: "pmark \<Rightarrow> pmark" where
  "eraseMark (Mark name r a) = Mark name 0 (map (\<lambda>kv. (fst kv, eraseVal (snd kv))) a)"

fun eraseRefs :: "pnode \<Rightarrow> pnode" where
  "eraseRefs (PNode r name a c) = PNode 0 name (map (\<lambda>kv. (fst kv, eraseVal (snd kv))) a) (map eraseRefs c)"
| "eraseRefs (PText r t ms) = PText 0 t (map eraseMark ms)"

definition structurallyEqual :: "pnode list \<Rightarrow> pnode list \<Rightarrow> bool" where
  "structurallyEqual xs ys = (map eraseRefs xs = map eraseRefs ys)"

text \<open>
  A schema that accepts every node and mark and rejects only the empty text node, and a
  library instance whose text mutators replace the whole text: they serve the concrete
  inputs of the theorems below and stand for nothing else.
\<close>

definition plainSchema :: pschema where
  "plainSchema = Schema
     (\<lambda>name a c. Some (PNode 0 name a c))
     (\<lambda>t ms. if t = [] then None else Some (PText 0 t ms))
     (\<lambda>name v. Some (Mark name 0 (orEmpty (Some v))))"

definition plainYjs :: yjs where
  "plainYjs = Yjs
     (\<lambda>a b. (0, length a, b))
     (\<lambda>its index len. [])
     (\<lambda>its index s. its @ [TextItem False (ContentString s)])
     (\<lambda>its delta. its)
     (\<lambda>a s. a)
     (\<lambda>its s p. toDelta its)"

subsection \<open>The position translators\<close>

text \<open>
  The translators walk the tree through \<^verbatim>\<open>_first\<close>, \<^verbatim>\<open>_item.next\<close>,
  \<^verbatim>\<open>_item.parent\<close> and \<^verbatim>\<open>_item.right\<close>. A type of the tree is named by a
  cursor: the indices of the items from the type up to the bound fragment, innermost
  first; the empty cursor is the fragment itself, the only type with no item.
  \<open>childrenAt\<close> is the item list of the type at a cursor, \<open>typeAt\<close> the type.
\<close>

type_synonym cursor = "nat list"

fun childrenAt :: "ynode list \<Rightarrow> cursor \<Rightarrow> ynode list" where
  "childrenAt cs [] = cs"
| "childrenAt cs (k # up) =
     (if k < length (childrenAt cs up) then childList (childrenAt cs up ! k) else [])"

fun typeAt :: "ynode list \<Rightarrow> cursor \<Rightarrow> ynode option" where
  "typeAt cs [] = None"
| "typeAt cs (k # up) =
     (if k < length (childrenAt cs up) then Some (childrenAt cs up ! k) else None)"

text \<open>
  \<^verbatim>\<open>_first\<close> and \<^verbatim>\<open>next\<close> are Yjs getters that skip deleted items:
  \<open>skipDeleted cs k\<close> is the index of the first item of \<open>cs\<close> that is not deleted,
  counted from \<open>k\<close>.
\<close>

fun skipDeleted :: "ynode list \<Rightarrow> nat \<Rightarrow> nat option" where
  "skipDeleted [] k = None"
| "skipDeleted (c # cs) k = (if deleted c then skipDeleted cs (Suc k) else Some k)"

definition firstChild :: "ynode list \<Rightarrow> cursor \<Rightarrow> cursor option" where
  "firstChild cs n = map_option (\<lambda>j. j # n) (skipDeleted (childrenAt cs n) 0)"

fun nextSibling :: "ynode list \<Rightarrow> cursor \<Rightarrow> cursor option" where
  "nextSibling cs [] = None"
| "nextSibling cs (k # up) =
     map_option (\<lambda>j. j # up) (skipDeleted (drop (Suc k) (childrenAt cs up)) (Suc k))"

text \<open>
  \<^verbatim>\<open>_length\<close>: the visible characters of a text type (formatting markers are not
  countable), the visible children of an element. \<^verbatim>\<open>nodeSize\<close> is ProseMirror's: the
  length of a text node, 1 for a leaf, the content and two tags otherwise; \<open>leaf\<close> tells
  which node types the schema makes leaves.
\<close>

fun countable :: "tcontent \<Rightarrow> bool" where
  "countable (ContentString s) = True"
| "countable (ContentFormat key v) = False"

fun contentLength :: "tcontent \<Rightarrow> int" where
  "contentLength (ContentString s) = int (length s)"
| "contentLength (ContentFormat key v) = 1"

datatype iteminfo = ItemInfo (infoDeleted: bool) (infoCountable: bool) (infoLength: int)

fun textItemInfo :: "ytextitem \<Rightarrow> iteminfo" where
  "textItemInfo (TextItem del c) = ItemInfo del (countable c) (contentLength c)"

definition childItemInfo :: "ynode \<Rightarrow> iteminfo" where
  "childItemInfo c = ItemInfo (deleted c) True 1"

fun countVisible :: "iteminfo list \<Rightarrow> int" where
  "countVisible [] = 0"
| "countVisible (it # its) =
     (if \<not> infoDeleted it \<and> infoCountable it then infoLength it else 0) + countVisible its"

fun ylength :: "ynode \<Rightarrow> int" where
  "ylength (YXmlElement i m name a cs) = countVisible (map childItemInfo cs)"
| "ylength (YXmlText i m its) = countVisible (map textItemInfo its)"
| "ylength (YXmlHook i) = 0"

fun nodeSize :: "(string \<Rightarrow> bool) \<Rightarrow> pnode \<Rightarrow> int" where
  "nodeSize leaf (PText r t ms) = int (length t)"
| "nodeSize leaf (PNode r name a c) =
     (if leaf name then 1 else 2 + sum_list (map (nodeSize leaf) c))"

text \<open>
  Line 907: \<^verbatim>\<open>(mapping.get(n) || { nodeSize: 0 }).nodeSize\<close>.
\<close>

fun pNodeSize :: "(string \<Rightarrow> bool) \<Rightarrow> ynode \<Rightarrow> int" where
  "pNodeSize leaf (YXmlElement i m name a cs) = (case m of None \<Rightarrow> 0 | Some p \<Rightarrow> nodeSize leaf p)"
| "pNodeSize leaf t = 0"

text \<open>
  Relative positions. The struct store of Yjs finds an item by its ID, and the
  translators use an ID only to name an item, or a character of a string item, and to
  find it again. The model names an item by its place in the tree: the cursor of its
  type for the item of a type, the index in the text's item list before the cursor of
  the text for an item of a text; the second component is the offset of a character in
  its item. A \<^verbatim>\<open>RelativePosition\<close> has the ID of a type or the key of a root type,
  and the ID of the item it sits before, if any.
\<close>

type_synonym yid = "cursor \<times> int"

datatype relativePosition =
  RelativePosition (rtype: "yid option") (rtname: "string option") (ritem: "yid option")

text \<open>
  \<^verbatim>\<open>createRelativePosition\<close> (lines 947-956; Yjs has the same function), with the
  key of the bound fragment for \<^verbatim>\<open>findRootTypeKey\<close>.
\<close>

definition createRelativePosition :: "string \<Rightarrow> cursor \<Rightarrow> yid option \<Rightarrow> relativePosition" where
  "createRelativePosition key ty itemid =
     (if ty = [] then RelativePosition None (Some key) itemid
      else RelativePosition (Some (ty, 0)) None itemid)"

text \<open>
  \<^verbatim>\<open>Y.createRelativePositionFromTypeIndex\<close>: the position before the character or
  child with the given index among the visible countable items of the type, or the end
  of the type.
\<close>

definition itemsAt :: "ynode list \<Rightarrow> cursor \<Rightarrow> iteminfo list" where
  "itemsAt cs n =
     (case typeAt cs n of
        Some (YXmlText i m its) \<Rightarrow> map textItemInfo its
      | _ \<Rightarrow> map childItemInfo (childrenAt cs n))"

fun findItem :: "iteminfo list \<Rightarrow> nat \<Rightarrow> int \<Rightarrow> (nat \<times> int) option" where
  "findItem [] j index = None"
| "findItem (it # its) j index =
     (if \<not> infoDeleted it \<and> infoCountable it
      then (if infoLength it > index then Some (j, index)
            else findItem its (Suc j) (index - infoLength it))
      else findItem its (Suc j) index)"

definition createRelativePositionFromTypeIndex :: "string \<Rightarrow> ynode list \<Rightarrow> cursor \<Rightarrow> int
    \<Rightarrow> relativePosition" where
  "createRelativePositionFromTypeIndex key cs n index =
     createRelativePosition key n
       (map_option (\<lambda>(j, off). (j # n, off)) (findItem (itemsAt cs n) 0 index))"

text \<open>
  \<^verbatim>\<open>absolutePositionToRelativePosition\<close> (lines 882-945). \<open>endOfStep\<close> is the end
  of the loop body (lines 937-942); the two \<^verbatim>\<open>do ... while\<close> loops climb from a
  type with no next sibling (lines 897-900 and 925-928: the first tests
  \<^verbatim>\<open>n._item\<close> for \<^verbatim>\<open>null\<close>, the second reads \<^verbatim>\<open>n._item.parent\<close> as it is);
  \<open>step\<close> is the loop body and \<open>walk\<close> the loop. The offset is a JavaScript
  number, which the decrements can take below zero.
\<close>

datatype outcome = Return "error + relativePosition" | Continue cursor int

definition isTextAt :: "ynode list \<Rightarrow> cursor \<Rightarrow> bool" where
  "isTextAt cs n = (case typeAt cs n of Some t \<Rightarrow> isXmlText t | None \<Rightarrow> False)"

definition endOfStep :: "string \<Rightarrow> ynode list \<Rightarrow> cursor option \<Rightarrow> int \<Rightarrow> outcome" where
  "endOfStep key cs n pos =
     (case n of
        None \<Rightarrow> Return (Inl UnexpectedCase)
      | Some n \<Rightarrow>
          if pos = 0 \<and> \<not> isTextAt cs n \<and> n \<noteq> []
          then Return (Inr (createRelativePosition key (tl n) (Some (n, 0))))
          else Continue n pos)"

fun ascendText :: "ynode list \<Rightarrow> cursor \<Rightarrow> int \<Rightarrow> cursor option \<times> int" where
  "ascendText cs [] pos = (None, pos - 1)"
| "ascendText cs (k # up) pos =
     (if up \<noteq> [] \<and> nextSibling cs up = None then ascendText cs up (pos - 1)
      else (Some up, pos - 1))"

fun ascendElement :: "ynode list \<Rightarrow> cursor \<Rightarrow> int \<Rightarrow> error + cursor \<times> int" where
  "ascendElement cs [] pos = Inl TypeError"
| "ascendElement cs (k # up) pos =
     (if up \<noteq> [] \<and> nextSibling cs up = None then ascendElement cs up (pos - 1)
      else Inr (up, pos - 1))"

text \<open>
  After a climb that ended below the fragment the source reads
  \<^verbatim>\<open>n._item.next.content\<close> (lines 903, 932).
\<close>

definition afterAscent :: "string \<Rightarrow> ynode list \<Rightarrow> cursor \<Rightarrow> int \<Rightarrow> outcome" where
  "afterAscent key cs n pos =
     (if n \<noteq> []
      then (case nextSibling cs n of
              None \<Rightarrow> Return (Inl TypeError)
            | Some n' \<Rightarrow> endOfStep key cs (Some n') pos)
      else endOfStep key cs (Some n) pos)"

text \<open>
  The branch of lines 911-935: the offset is not inside the element \<open>t\<close> at \<open>n\<close>.
\<close>

definition stepOver :: "(string \<Rightarrow> bool) \<Rightarrow> string \<Rightarrow> ynode list \<Rightarrow> cursor \<Rightarrow> ynode \<Rightarrow> int \<Rightarrow> outcome" where
  "stepOver leaf key cs n t pos =
     (if pos = 1 \<and> ylength t = 0 \<and> pNodeSize leaf t > 1
      then Return (Inr (createRelativePosition key n None))
      else (case nextSibling cs n of
              Some n' \<Rightarrow> endOfStep key cs (Some n') (pos - pNodeSize leaf t)
            | None \<Rightarrow>
                if pos - pNodeSize leaf t = 0
                then Return (Inr (createRelativePosition key (tl n) None))
                else (case ascendElement cs n (pos - pNodeSize leaf t) of
                        Inl e \<Rightarrow> Return (Inl e)
                      | Inr (a, pos1) \<Rightarrow> afterAscent key cs a pos1)))"

definition step :: "(string \<Rightarrow> bool) \<Rightarrow> string \<Rightarrow> ynode list \<Rightarrow> cursor \<Rightarrow> int \<Rightarrow> outcome" where
  "step leaf key cs n pos =
     (case typeAt cs n of
        None \<Rightarrow> Return (Inl UnexpectedCase)
      | Some t \<Rightarrow>
          if isXmlText t
          then (if ylength t \<ge> pos
                then Return (Inr (createRelativePositionFromTypeIndex key cs n pos))
                else (case nextSibling cs n of
                        Some n' \<Rightarrow> endOfStep key cs (Some n') (pos - ylength t)
                      | None \<Rightarrow>
                          (case ascendText cs n (pos - ylength t) of
                             (None, pos1) \<Rightarrow> endOfStep key cs None pos1
                           | (Some a, pos1) \<Rightarrow> afterAscent key cs a pos1)))
          else (if firstChild cs n \<noteq> None \<and> pos < pNodeSize leaf t
                then endOfStep key cs (firstChild cs n) (pos - 1)
                else stepOver leaf key cs n t pos))"

text \<open>
  The loop stops at the fragment. Each step moves the cursor forward in document order:
  \<open>todo\<close> counts the types at and after the cursor.
\<close>

fun todoUp :: "ynode list \<Rightarrow> cursor \<Rightarrow> nat" where
  "todoUp cs [] = 0"
| "todoUp cs (k # up) = size_list size (drop (Suc k) (childrenAt cs up)) + todoUp cs up"

fun todo :: "ynode list \<Rightarrow> cursor \<Rightarrow> nat" where
  "todo cs [] = 0"
| "todo cs (k # up) = size_list size (drop k (childrenAt cs up)) + todoUp cs up"

lemma skipDeleted_bounds: "skipDeleted cs k = Some j \<Longrightarrow> k \<le> j \<and> j < k + length cs"
proof (induction cs arbitrary: k)
  case Nil
  then show ?case by simp
next
  case (Cons c cs)
  show ?case
  proof (cases "deleted c")
    case True
    with Cons.prems have "skipDeleted cs (Suc k) = Some j" by simp
    from Cons.IH[OF this] show ?thesis by simp
  next
    case False
    with Cons.prems show ?thesis by simp
  qed
qed

lemma size_list_drop_less:
  assumes "k < length xs"
  shows "size_list f (drop (Suc k) xs) < size_list f (drop k xs)"
proof -
  from assms have "drop k xs = xs ! k # drop (Suc k) xs"
    by (rule Cons_nth_drop_Suc[symmetric])
  then show ?thesis by simp
qed

lemma size_list_drop_le: "i \<le> j \<Longrightarrow> size_list f (drop j xs) \<le> size_list f (drop i xs)"
proof (induction "j - i" arbitrary: j)
  case 0
  then show ?case by simp
next
  case (Suc d)
  then obtain j' where j: "j = Suc j'" and d: "d = j' - i" and le: "i \<le> j'"
    by (cases j) auto
  show ?case
  proof (cases "j' < length xs")
    case True
    from size_list_drop_less[OF True, of f] Suc.hyps(1)[OF d le] j show ?thesis by simp
  next
    case False
    then show ?thesis using j by simp
  qed
qed

lemma todo_next:
  assumes "nextSibling cs n = Some n'"
  shows "todo cs n' \<le> todoUp cs n \<and> todo cs n' < todo cs n"
proof -
  from assms obtain k up where n: "n = k # up" by (cases n) auto
  with assms obtain j where j: "skipDeleted (drop (Suc k) (childrenAt cs up)) (Suc k) = Some j"
    and n': "n' = j # up" by auto
  from skipDeleted_bounds[OF j] have b: "Suc k \<le> j" "k < length (childrenAt cs up)" by auto
  have "size_list size (drop j (childrenAt cs up)) \<le> size_list size (drop (Suc k) (childrenAt cs up))"
    by (rule size_list_drop_le[OF b(1)])
  moreover note size_list_drop_less[OF b(2), of size]
  ultimately show ?thesis using n n' by simp
qed

lemma todo_typeAt:
  assumes "typeAt cs n = Some t"
  shows "todo cs n = Suc (size t + todoUp cs n)"
proof -
  from assms obtain k up where n: "n = k # up" by (cases n) auto
  with assms have k: "k < length (childrenAt cs up)" and t: "t = childrenAt cs up ! k"
    by (auto split: if_splits)
  from k have "drop k (childrenAt cs up) = t # drop (Suc k) (childrenAt cs up)"
    unfolding t by (rule Cons_nth_drop_Suc[symmetric])
  then show ?thesis using n by simp
qed

lemma todoUp_ascendText:
  "ascendText cs n pos = (Some a, pos1) \<Longrightarrow> todoUp cs a \<le> todoUp cs n"
proof (induction cs n pos rule: ascendText.induct)
  case (1 cs pos)
  then show ?case by simp
next
  case (2 cs k up pos)
  show ?case
  proof (cases "up \<noteq> [] \<and> nextSibling cs up = None")
    case True
    with 2 have "todoUp cs a \<le> todoUp cs up" by simp
    then show ?thesis by simp
  next
    case False
    with "2.prems" have "a = up" by auto
    then show ?thesis by simp
  qed
qed

lemma todoUp_ascendElement:
  "ascendElement cs n pos = Inr (a, pos1) \<Longrightarrow> todoUp cs a \<le> todoUp cs n"
proof (induction cs n pos rule: ascendElement.induct)
  case (1 cs pos)
  then show ?case by simp
next
  case (2 cs k up pos)
  show ?case
  proof (cases "up \<noteq> [] \<and> nextSibling cs up = None")
    case True
    with 2 have "todoUp cs a \<le> todoUp cs up" by simp
    then show ?thesis by simp
  next
    case False
    with "2.prems" have "a = up" by auto
    then show ?thesis by simp
  qed
qed

lemma todo_endOfStep:
  "endOfStep key cs (Some a) pos = Continue n' pos' \<Longrightarrow> n' = a"
  by (auto simp: endOfStep_def split: if_splits)

lemma todo_afterAscent:
  assumes "afterAscent key cs a pos = Continue n' pos'"
  shows "todo cs n' \<le> todoUp cs a"
proof (cases "a = []")
  case True
  with assms have "n' = []" by (auto simp: afterAscent_def dest: todo_endOfStep)
  then show ?thesis by simp
next
  case False
  with assms obtain b where b: "nextSibling cs a = Some b" and "endOfStep key cs (Some b) pos = Continue n' pos'"
    by (auto simp: afterAscent_def split: option.splits)
  then have "n' = b" by (auto dest: todo_endOfStep)
  with todo_next[OF b] show ?thesis by simp
qed

lemma size_childList: "size_list size (childList t) \<le> size t"
  by (cases t) simp_all

lemma todo_firstChild:
  assumes "typeAt cs n = Some t" and "firstChild cs n = Some c"
  shows "todo cs c < todo cs n"
proof -
  from assms(1) obtain k up where n: "n = k # up" by (cases n) auto
  with assms(1) have ch: "childrenAt cs n = childList t" by (auto split: if_splits)
  from assms(2) obtain j where c: "c = j # n" by (auto simp: firstChild_def)
  have "size_list size (drop j (childList t)) \<le> size_list size (drop 0 (childList t))"
    by (rule size_list_drop_le) simp
  with size_childList[of t] have "size_list size (drop j (childList t)) \<le> size t" by simp
  then show ?thesis unfolding todo_typeAt[OF assms(1)] c by (simp add: ch)
qed

lemma todo_step:
  assumes "step leaf key cs n pos = Continue n' pos'"
  shows "todo cs n' < todo cs n"
proof -
  from assms obtain t where t: "typeAt cs n = Some t"
    by (auto simp: step_def split: option.splits)
  note up = todo_typeAt[OF t]
  show ?thesis
  proof (cases "isXmlText t")
    case True
    show ?thesis
    proof (cases "nextSibling cs n")
      case (Some b)
      with assms t True have "n' = b"
        by (auto simp: step_def split: if_splits dest: todo_endOfStep)
      with todo_next[OF Some] show ?thesis by simp
    next
      case None
      with assms t True obtain a pos1 where a: "ascendText cs n (pos - ylength t) = (Some a, pos1)"
        and af: "afterAscent key cs a pos1 = Continue n' pos'"
        by (auto simp: step_def endOfStep_def split: if_splits option.splits prod.splits)
      from todo_afterAscent[OF af] todoUp_ascendText[OF a] up show ?thesis by simp
    qed
  next
    case False
    show ?thesis
    proof (cases "firstChild cs n \<noteq> None \<and> pos < pNodeSize leaf t")
      case True
      then obtain c where c: "firstChild cs n = Some c" by auto
      with assms t False True have "n' = c"
        by (auto simp: step_def dest: todo_endOfStep)
      with todo_firstChild[OF t c] show ?thesis by simp
    next
      case no: False
      with assms t False have so: "stepOver leaf key cs n t pos = Continue n' pos'"
        by (auto simp: step_def)
      show ?thesis
      proof (cases "nextSibling cs n")
        case (Some b)
        with so have "n' = b"
          by (auto simp: stepOver_def split: if_splits dest: todo_endOfStep)
        with todo_next[OF Some] show ?thesis by simp
      next
        case None
        with so obtain a pos1 where a: "ascendElement cs n (pos - pNodeSize leaf t) = Inr (a, pos1)"
          and af: "afterAscent key cs a pos1 = Continue n' pos'"
          by (auto simp: stepOver_def split: if_splits sum.splits prod.splits)
        from todo_afterAscent[OF af] todoUp_ascendElement[OF a] up show ?thesis by simp
      qed
    qed
  qed
qed

text \<open>
  The loop of lines 887-943 and the \<^verbatim>\<open>return\<close> after it.
\<close>

definition rootLength :: "ynode list \<Rightarrow> int" where
  "rootLength cs = countVisible (map childItemInfo cs)"

function walk :: "(string \<Rightarrow> bool) \<Rightarrow> string \<Rightarrow> ynode list \<Rightarrow> cursor \<Rightarrow> int \<Rightarrow> error + relativePosition" where
  "walk leaf key cs n pos =
     (if n = [] then Inr (createRelativePositionFromTypeIndex key cs [] (rootLength cs))
      else (case step leaf key cs n pos of
              Return r \<Rightarrow> r
            | Continue n' pos' \<Rightarrow> walk leaf key cs n' pos'))"
  by pat_completeness auto
termination
  apply (relation "measure (\<lambda>(leaf, key, cs, n, pos). todo cs n)")
   apply simp
  apply (simp add: todo_step)
  done

declare walk.simps [simp del]

fun absolutePositionToRelativePosition :: "(string \<Rightarrow> bool) \<Rightarrow> string \<Rightarrow> int \<Rightarrow> yfragment
    \<Rightarrow> error + relativePosition" where
  "absolutePositionToRelativePosition leaf key pos (YXmlFragment m cs) =
     (if pos = 0 then Inr (createRelativePositionFromTypeIndex key cs [] 0)
      else (case firstChild cs [] of
              None \<Rightarrow> Inr (createRelativePositionFromTypeIndex key cs [] (rootLength cs))
            | Some n \<Rightarrow> walk leaf key cs n pos))"

text \<open>
  The size a child takes in the offset arithmetic of
  \<^verbatim>\<open>absolutePositionToRelativePosition\<close>: the length of a text type, the size of the
  mapped node of any other type. \<open>contentSize\<close> adds the sizes of the visible children
  of a type; for the bound fragment whose children are mapped to the children of the
  local document it is the content size of the document.
\<close>

fun ysize :: "(string \<Rightarrow> bool) \<Rightarrow> ynode \<Rightarrow> int" where
  "ysize leaf (YXmlText i m its) = ylength (YXmlText i m its)"
| "ysize leaf t = pNodeSize leaf t"

definition contentSize :: "(string \<Rightarrow> bool) \<Rightarrow> ynode list \<Rightarrow> int" where
  "contentSize leaf cs = sum_list (map (ysize leaf) (toArray cs))"

text \<open>
  \<open>fillUnmapped z\<close> gives every element that has no entry in the Mapping Table the
  entry \<open>z\<close>, and leaves the rest of the tree as it is.
\<close>

fun fillUnmapped :: "pnode \<Rightarrow> ynode \<Rightarrow> ynode" where
  "fillUnmapped z (YXmlElement i m name a cs) =
     YXmlElement i (case m of None \<Rightarrow> Some z | Some p \<Rightarrow> Some p) name a (map (fillUnmapped z) cs)"
| "fillUnmapped z t = t"

section \<open>Claims about the attribute comparison and the reconciler\<close>

text \<open>
  C6. The claim: \<^verbatim>\<open>equalAttrs\<close>, as \<^verbatim>\<open>equalYTypePNode\<close> uses it, is true exactly
  when the two maps agree on every non-null key, the \<^verbatim>\<open>ychange\<close> attribute being
  ignored entirely. The code skips the value of \<^verbatim>\<open>ychange\<close> only in the loop over the
  keys of its first argument and counts the key on both sides. The theorem evaluates
  the code: a local \<^verbatim>\<open>ychange\<close> annotation alone makes the maps unequal (first and
  third conjunct, the third through \<^verbatim>\<open>equalYTypePNode\<close>), and a \<^verbatim>\<open>ychange\<close> in
  the first map stands in for any one key of the second (second conjunct).
\<close>

theorem equalAttrs_counts_ychange:
  "equalAttrs [] (Some [(''ychange'', JObj 1 [(''type'', JStr ''added'')])]) = Inr False
   \<and> equalAttrs [(''ychange'', JStr ''x'')] (Some [(''b'', JNum 2)]) = Inr True
   \<and> equalYTypePNode (YXmlElement (Item (1, 0) False) None ''p'' [] [])
        (PSingle (PNode 7 ''p'' [(''ychange'', JObj 1 [(''type'', JStr ''added'')])] [])) = Inr False"
  by (simp add: nonNullKeys_def objKeys_eval objGet_def normalizePNodeContent_def toArray_def)

text \<open>
  C4. The claim: \<^verbatim>\<open>updateYFragment\<close> throws if and only if its replicated argument
  is an element whose name differs from the local node's at the root. The theorem
  evaluates the code on a fragment and a document whose roots match: the fragment holds
  one paragraph with the attribute \<^verbatim>\<open>a = {x: 1}\<close>, the local paragraph has
  \<^verbatim>\<open>a = null\<close> and \<^verbatim>\<open>b = 1\<close>. The left scan compares the two paragraphs,
  \<^verbatim>\<open>equalAttrs\<close> reaches \<^verbatim>\<open>Object.keys(null)\<close>, and the TypeError leaves
  \<^verbatim>\<open>updateYFragment\<close>, whatever the library functions and the document are.
\<close>

theorem updateYFragment_attribute_TypeError:
  "updateYFragmentRoot lib y
     (YXmlFragment None
        [YXmlElement (Item (1, 0) False) None ''p'' [(''a'', JObj 7 [(''x'', JNum 1)])] []])
     (PNode 100 ''doc'' [] [PNode 101 ''p'' [(''a'', JNull), (''b'', JNum 1)] []])
   = Inl TypeError"
  by (simp add: normalizePNodeContent_def toArray_def deleted_def nonNullKeys_def objKeys_eval
      objGet_def)

text \<open>
  C2. The claim: after \<^verbatim>\<open>updateYFragment\<close> has projected a local document into a
  fragment, materialising the fragment with a new mapping gives a tree structurally equal
  to the document. The theorem evaluates the code on a fragment whose paragraph holds the
  text \<^verbatim>\<open>a\<close> under the format \<^verbatim>\<open>em\<close> and a document whose paragraph holds the text
  \<^verbatim>\<open>a\<close> under the mark \<^verbatim>\<open>strong\<close>: \<^verbatim>\<open>equalYTextPText\<close> looks up the local
  mark's name in the delta, falls back to the empty object and finds the pair equal, so
  the pass changes nothing and the materialised paragraph still carries \<^verbatim>\<open>em\<close>.
\<close>

theorem updateYFragment_keeps_other_mark:
  "updateYFragmentRoot lib y
     (YXmlFragment None
        [YXmlElement (Item (1, 0) False) None ''p'' []
           [YXmlText (Item (1, 1) False) None
              [TextItem False (ContentFormat ''em'' (JObj 5 [])),
               TextItem False (ContentString ''a'')]]])
     (PNode 100 ''doc'' [] [PNode 101 ''p'' [] [PText 102 ''a'' [Mark ''strong'' 6 []]]])
   = Inr (y,
       YXmlFragment (Some (PNode 100 ''doc'' [] [PNode 101 ''p'' [] [PText 102 ''a'' [Mark ''strong'' 6 []]]]))
         [YXmlElement (Item (1, 0) False) (Some (PNode 101 ''p'' [] [PText 102 ''a'' [Mark ''strong'' 6 []]]))
            ''p'' []
            [YXmlText (Item (1, 1) False) None
               [TextItem False (ContentFormat ''em'' (JObj 5 [])),
                TextItem False (ContentString ''a'')]]],
       [])
   \<and> (\<exists>t. unrenderSnapshot plainYjs
          (YXmlFragment (Some (PNode 100 ''doc'' [] [PNode 101 ''p'' [] [PText 102 ''a'' [Mark ''strong'' 6 []]]]))
            [YXmlElement (Item (1, 0) False) (Some (PNode 101 ''p'' [] [PText 102 ''a'' [Mark ''strong'' 6 []]]))
               ''p'' []
               [YXmlText (Item (1, 1) False) None
                  [TextItem False (ContentFormat ''em'' (JObj 5 [])),
                   TextItem False (ContentString ''a'')]]])
          plainSchema
        = Inr ([PNode 0 ''p'' [] [PText 0 ''a'' [Mark ''em'' 0 []]]], t))
   \<and> \<not> structurallyEqual [PNode 0 ''p'' [] [PText 0 ''a'' [Mark ''em'' 0 []]]]
         (content (PNode 100 ''doc'' [] [PNode 101 ''p'' [] [PText 102 ''a'' [Mark ''strong'' 6 []]]]))"
  by (simp add: normalizePNodeContent_def toArray_def deleted_def nonNullKeys_def objKeys_eval
      objGet_def equalYTextPText_def toDelta_def packStr_def finish_def updateAttributes_def
      inChildArray_def createTextNodesFromYText_def renderAttributes_def
      plainSchema_def plainYjs_def structurallyEqual_def)

text \<open>
  C5. In the middle loop, when the left pair and the right pair are both elements with
  matching names and both equality factors are computed, the pass recurses into the left
  pair exactly when only the left lookahead found an identity-mapped child, or both or
  neither found one and the left equality factor is at least the right one; otherwise it
  recurses into the right pair. The theorem states the whole step of the loop: which
  pair \<^verbatim>\<open>updateYFragment\<close> is called on, and with which counters the loop goes on.
\<close>

theorem middle_prefers_left_on_ties:
  assumes "left + right < yChildCnt" and "left + right < length pChildren"
    and "pChildren ! left = PSingle lp"
    and "pChildren ! (length pChildren - right - 1) = PSingle rp"
    and "matchNodeName (toArray cs ! left) (PSingle lp)"
    and "matchNodeName (toArray cs ! (yChildCnt - right - 1)) (PSingle rp)"
    and "computeChildEqualityFactor (toArray cs ! left) lp = Inr el"
    and "computeChildEqualityFactor (toArray cs ! (yChildCnt - right - 1)) rp = Inr er"
  shows "middle lib y cs pChildren yChildCnt left right log =
     (if (foundMappedChild el \<and> \<not> foundMappedChild er)
         \<or> ((foundMappedChild el = foundMappedChild er) \<and> equalityFactor er \<le> equalityFactor el)
      then (case updateYFragment lib y (toArray cs ! left) lp of
              Inl e \<Rightarrow> Inl e
            | Inr (y1, t, ulog) \<Rightarrow>
                middle lib y1 (replaceVisible left t cs) pChildren yChildCnt (left + 1) right (log @ ulog))
      else (case updateYFragment lib y (toArray cs ! (yChildCnt - right - 1)) rp of
              Inl e \<Rightarrow> Inl e
            | Inr (y1, t, ulog) \<Rightarrow>
                middle lib y1 (replaceVisible (yChildCnt - right - 1) t cs) pChildren yChildCnt
                  left (right + 1) (log @ ulog)))"
proof -
  have choice: "chooseUpdate (toArray cs ! left) (PSingle lp) (toArray cs ! (yChildCnt - right - 1)) (PSingle rp)
      = Inr (if (foundMappedChild el \<and> \<not> foundMappedChild er)
                \<or> ((foundMappedChild el = foundMappedChild er) \<and> equalityFactor er \<le> equalityFactor el)
             then (True, False) else (False, True))"
    using assms(5-8) by (auto simp: chooseUpdate_def)
  have notText: "\<not> isXmlText (toArray cs ! left)"
    using assms(5) by (cases "toArray cs ! left") auto
  have guard: "left + right < yChildCnt \<and> left + right < length pChildren"
    using assms(1,2) by simp
  show ?thesis
    apply (subst middle.simps)
    apply (simp only: guard if_True Let_def assms(3) assms(4) choice)
    apply (simp add: notText del: middle.simps updateYFragment.simps)
    done
qed

theorem middle_prefers_left_on_ties_witness:
  "computeChildEqualityFactor
      (YXmlElement (Item (1, 0) False) None ''p'' []
         [YXmlText (Item (1, 1) False) None [TextItem False (ContentString ''a'')]])
      (PNode 11 ''p'' [] [PText 12 ''x'' []]) = Inr (Equality 0 False)
   \<and> computeChildEqualityFactor
      (YXmlElement (Item (1, 2) False) None ''p'' []
         [YXmlText (Item (1, 3) False) None [TextItem False (ContentString ''b'')]])
      (PNode 13 ''p'' [] [PText 14 ''y'' []]) = Inr (Equality 0 False)
   \<and> middle plainYjs (YDoc 2 0)
       [YXmlElement (Item (1, 0) False) None ''p'' []
          [YXmlText (Item (1, 1) False) None [TextItem False (ContentString ''a'')]],
        YXmlElement (Item (1, 2) False) None ''p'' []
          [YXmlText (Item (1, 3) False) None [TextItem False (ContentString ''b'')]]]
       [PSingle (PNode 11 ''p'' [] [PText 12 ''x'' []]), PSingle (PNode 13 ''p'' [] [PText 14 ''y'' []])]
       2 0 0 []
     = (case updateYFragment plainYjs (YDoc 2 0)
               (YXmlElement (Item (1, 0) False) None ''p'' []
                  [YXmlText (Item (1, 1) False) None [TextItem False (ContentString ''a'')]])
               (PNode 11 ''p'' [] [PText 12 ''x'' []]) of
          Inl e \<Rightarrow> Inl e
        | Inr (y1, t, ulog) \<Rightarrow>
            middle plainYjs y1
              (replaceVisible 0 t
                 [YXmlElement (Item (1, 0) False) None ''p'' []
                    [YXmlText (Item (1, 1) False) None [TextItem False (ContentString ''a'')]],
                  YXmlElement (Item (1, 2) False) None ''p'' []
                    [YXmlText (Item (1, 3) False) None [TextItem False (ContentString ''b'')]]])
              [PSingle (PNode 11 ''p'' [] [PText 12 ''x'' []]), PSingle (PNode 13 ''p'' [] [PText 14 ''y'' []])]
              2 1 0 ulog)"
proof -
  let ?l = "YXmlElement (Item (1, 0) False) None ''p'' []
         [YXmlText (Item (1, 1) False) None [TextItem False (ContentString ''a'')]]"
  let ?r = "YXmlElement (Item (1, 2) False) None ''p'' []
         [YXmlText (Item (1, 3) False) None [TextItem False (ContentString ''b'')]]"
  let ?lp = "PNode 11 ''p'' [] [PText 12 ''x'' []]"
  let ?rp = "PNode 13 ''p'' [] [PText 14 ''y'' []]"
  have el: "computeChildEqualityFactor ?l ?lp = Inr (Equality 0 False)"
    by (simp add: computeChildEqualityFactor_def toArray_def deleted_def normalizePNodeContent_def
        equalYTextPText_def toDelta_def packStr_def)
  have er: "computeChildEqualityFactor ?r ?rp = Inr (Equality 0 False)"
    by (simp add: computeChildEqualityFactor_def toArray_def deleted_def normalizePNodeContent_def
        equalYTextPText_def toDelta_def packStr_def)
  have h1: "(0::nat) + 0 < 2" by simp
  have h2: "(0::nat) + 0 < length [PSingle ?lp, PSingle ?rp]" by simp
  have h3: "[PSingle ?lp, PSingle ?rp] ! 0 = PSingle ?lp" by simp
  have h4: "[PSingle ?lp, PSingle ?rp] ! (length [PSingle ?lp, PSingle ?rp] - 0 - 1) = PSingle ?rp" by simp
  have h5: "matchNodeName (toArray [?l, ?r] ! 0) (PSingle ?lp)"
    by (simp add: toArray_def deleted_def)
  have h6: "matchNodeName (toArray [?l, ?r] ! (2 - 0 - 1)) (PSingle ?rp)"
    by (simp add: toArray_def deleted_def)
  have h7: "computeChildEqualityFactor (toArray [?l, ?r] ! 0) ?lp = Inr (Equality 0 False)"
    using el by (simp add: toArray_def deleted_def)
  have h8: "computeChildEqualityFactor (toArray [?l, ?r] ! (2 - 0 - 1)) ?rp = Inr (Equality 0 False)"
    using er by (simp add: toArray_def deleted_def)
  have "middle plainYjs (YDoc 2 0) [?l, ?r] [PSingle ?lp, PSingle ?rp] 2 0 0 [] =
     (case updateYFragment plainYjs (YDoc 2 0) (toArray [?l, ?r] ! 0) ?lp of
        Inl e \<Rightarrow> Inl e
      | Inr (y1, t, ulog) \<Rightarrow>
          middle plainYjs y1 (replaceVisible 0 t [?l, ?r]) [PSingle ?lp, PSingle ?rp] 2 (0 + 1) 0 ([] @ ulog))"
    using middle_prefers_left_on_ties[OF h1 h2 h3 h4 h5 h6 h7 h8, of plainYjs "YDoc 2 0" "[]"]
    by (simp only: equality.sel if_True simp_thms le_refl)
  then have "middle plainYjs (YDoc 2 0) [?l, ?r] [PSingle ?lp, PSingle ?rp] 2 0 0 [] =
     (case updateYFragment plainYjs (YDoc 2 0) ?l ?lp of
        Inl e \<Rightarrow> Inl e
      | Inr (y1, t, ulog) \<Rightarrow>
          middle plainYjs y1 (replaceVisible 0 t [?l, ?r]) [PSingle ?lp, PSingle ?rp] 2 1 0 ulog)"
    by (simp only: toArray_def deleted_def item.simps yitem.sel filter.simps if_True
        not_False_eq_True nth_Cons_0 append_Nil add_0 One_nat_def[symmetric] add_0_left)
  with el er show ?thesis by blast
qed

section \<open>Claims about the materializer\<close>

text \<open>
  C7 (amended). When the construction of a local node fails, the materializer returns
  \<^verbatim>\<open>null\<close> and raises nothing. On the element path (the attributes or
  \<^verbatim>\<open>schema.node\<close> throw inside the \<^verbatim>\<open>try\<close> of
  \<^verbatim>\<open>createNodeFromYElement\<close>) the element is deleted and its mapping entry is
  removed. On the text path (\<^verbatim>\<open>schema.mark\<close> or \<^verbatim>\<open>schema.text\<close> throw in
  \<^verbatim>\<open>createTextNodesFromYText\<close>) the text type is deleted and the mapping is left
  as it was: that function never reads or writes the mapping.
\<close>

theorem materializer_failure_deletes:
  "(createChildren lib cs schema snapshot prevSnapshot computeYChange = Inr (children, cs')
      \<and> (renderAttributes lib i yattrs snapshot prevSnapshot computeYChange = None
           \<or> (\<exists>a. renderAttributes lib i yattrs snapshot prevSnapshot computeYChange = Some a
                    \<and> schemaNode schema name a children = None))
     \<longrightarrow> (\<exists>t. createNodeFromYElement lib (YXmlElement i m name yattrs cs) schema snapshot prevSnapshot
                  computeYChange = Inr (None, t)
              \<and> deleted t \<and> mappingGet t = None))
   \<and> (createTextNodes schema
         (if snapshot = None \<and> prevSnapshot = None then toDelta its
          else toDeltaSnapshot lib its snapshot prevSnapshot) = None
     \<longrightarrow> (\<exists>t. createTextNodesFromYText lib (YXmlText j tm its) schema snapshot prevSnapshot = (None, t)
              \<and> deleted t \<and> mappingGet t = mappingGet (YXmlText j tm its)))"
  by (auto simp: createTextNodesFromYText_def deleted_def)

text \<open>
  A schema that rejects everything: the element (whose mapping entry goes) and the text
  type (which had none) are deleted, and both calls return \<^verbatim>\<open>null\<close>.
\<close>

theorem materializer_failure_deletes_witness:
  "createChildren plainYjs [] (Schema (\<lambda>name a c. None) (\<lambda>t ms. None) (\<lambda>name v. None)) None None None
     = Inr ([], [])
   \<and> schemaNode (Schema (\<lambda>name a c. None) (\<lambda>t ms. None) (\<lambda>name v. None)) ''p'' [] [] = None
   \<and> createNodeFromYElement plainYjs (YXmlElement (Item (1, 0) False) (Some (PNode 3 ''p'' [] [])) ''p'' [] [])
        (Schema (\<lambda>name a c. None) (\<lambda>t ms. None) (\<lambda>name v. None)) None None None
       = Inr (None, YXmlElement (Item (1, 0) True) None ''p'' [] [])
   \<and> createTextNodes (Schema (\<lambda>name a c. None) (\<lambda>t ms. None) (\<lambda>name v. None))
        (toDelta [TextItem False (ContentString ''a'')]) = None
   \<and> createTextNodesFromYText plainYjs
        (YXmlText (Item (1, 1) False) None [TextItem False (ContentString ''a'')])
        (Schema (\<lambda>name a c. None) (\<lambda>t ms. None) (\<lambda>name v. None)) None None
       = (None, YXmlText (Item (1, 1) True) None [TextItem True (ContentString ''a'')])"
  using materializer_failure_deletes[of plainYjs "[]" "Schema (\<lambda>name a c. None) (\<lambda>t ms. None) (\<lambda>name v. None)"
      None None None "[]" "[]" "Item (1, 0) False" "[]" "''p''" "Some (PNode 3 ''p'' [] [])"
      "[TextItem False (ContentString ''a'')]" "Item (1, 1) False" None]
  by (simp add: renderAttributes_def createTextNodesFromYText_def toDelta_def packStr_def objKeys_eval)

text \<open>
  The claim as stated fails on the text path: the text type below has a mapping entry,
  the schema rejects its text node, and the entry is still there after the call.
\<close>

theorem text_failure_keeps_mapping_entry:
  "createTextNodes (Schema (\<lambda>name a c. None) (\<lambda>t ms. None) (\<lambda>name v. None))
        (toDelta [TextItem False (ContentString ''a'')]) = None
   \<and> mappingGet (snd (createTextNodesFromYText plainYjs
        (YXmlText (Item (1, 1) False) (Some [PText 5 ''a'' []]) [TextItem False (ContentString ''a'')])
        (Schema (\<lambda>name a c. None) (\<lambda>t ms. None) (\<lambda>name v. None)) None None))
     = Some (PGroup [PText 5 ''a'' []])"
  by (simp add: createTextNodesFromYText_def toDelta_def packStr_def objKeys_eval)

text \<open>
  C9. The claim: under a snapshot pair every replicated child that is deleted and
  visible in neither snapshot is omitted from the output, and an element not visible in
  the newer snapshot carries \<^verbatim>\<open>ychange\<close> of type \<^verbatim>\<open>removed\<close>. The theorem
  evaluates \<^verbatim>\<open>_renderSnapshot\<close> on an element \<^verbatim>\<open>c\<close> that was created after the
  older snapshot and deleted before the newer one (first two conjuncts: it is visible in
  neither). As a child of the paragraph it is in the array that
  \<^verbatim>\<open>createNodeFromYElement\<close> takes from \<^verbatim>\<open>typeListToArraySnapshot\<close>, which has
  no further test, and it is emitted, annotated as removed (third conjunct). As a child
  of the fragment the test of lines 338-344 drops it (fourth conjunct).
\<close>

theorem renderSnapshot_emits_nested_child_visible_in_neither:
  "isVisible (Item (1, 5) True) (Some (Snapshot [(1, 5)] [(1, 10)])) = False
   \<and> isVisible (Item (1, 5) True) (Some (Snapshot [] [(1, 3)])) = False
   \<and> (\<exists>t. renderSnapshot plainYjs
          (YXmlFragment None
             [YXmlElement (Item (1, 0) False) None ''p'' []
                [YXmlElement (Item (1, 5) True) None ''c'' [] []]])
          plainSchema (Snapshot [(1, 5)] [(1, 10)]) (Snapshot [] [(1, 3)])
          (\<lambda>ty i. Some (JObj 0 [(''type'', JStr ty)]))
        = Inr ([PNode 0 ''p'' []
                  [PNode 0 ''c'' [(''ychange'', JObj 0 [(''type'', JStr ''removed'')])] []]], t))
   \<and> (\<exists>t. renderSnapshot plainYjs
          (YXmlFragment None
             [YXmlElement (Item (1, 0) False) None ''p'' [] [],
              YXmlElement (Item (1, 5) True) None ''c'' [] []])
          plainSchema (Snapshot [(1, 5)] [(1, 10)]) (Snapshot [] [(1, 3)])
          (\<lambda>ty i. Some (JObj 0 [(''type'', JStr ty)]))
        = Inr ([PNode 0 ''p'' [] []], t))"
  by (simp add: nodeVisible_def deleted_def inChildArray_def renderAttributes_def
      ychangeValue_def plainSchema_def plainYjs_def)

section \<open>Idempotence of the reconciler\<close>

text \<open>
  From here on the loops of the reconciler are unfolded by hand, one step at a time.
\<close>

declare scanLeft.simps[simp del] scanRight.simps[simp del] middle.simps[simp del] updateChildren.simps[simp del] cefLeft.simps[simp del] cefRight.simps[simp del]


lemma objGet_objSet: "objGet (objSet a k v) k' = (if k' = k then Some v else objGet a k')"
  unfolding objGet_def by (induction a) auto

lemma objGet_objRemove: "objGet (objRemove a k) k' = (if k' = k then None else objGet a k')"
  unfolding objGet_def objRemove_def by (induction a) auto

lemma objRemove_absent: "objGet a k = None \<Longrightarrow> objRemove a k = a"
  unfolding objGet_def objRemove_def
  by (induction a) (auto split: if_splits)

lemma objKeys_objGet: "k \<in> set (objKeys a) \<longleftrightarrow> objGet a k \<noteq> None"
  unfolding set_objKeys objGet_def by (simp add: map_of_eq_None_iff)

lemma strictEq_refl: "v \<noteq> Some JNaN \<Longrightarrow> strictEq v v"
proof (cases v)
  case None
  then show ?thesis by simp
next
  case (Some x)
  assume "v \<noteq> Some JNaN"
  with Some show ?thesis by (cases x) auto
qed

lemma objGet_setLoop:
  "distinct ks \<Longrightarrow>
   objGet (fst (setLoop ks ya pa st)) k =
     (if k \<in> set ks
      then (if \<not> strictEq (objGet pa k) (Some JNull)
            then (if \<not> strictEq (objGet ya k) (objGet pa k) \<and> k \<noteq> ''ychange''
                  then Some (the (objGet pa k)) else objGet (fst st) k)
            else None)
      else objGet (fst st) k)"
proof (induction ks arbitrary: st)
  case Nil
  show ?case by simp
next
  case (Cons key ks)
  then show ?case
    by (auto simp: setAttribute_def removeAttribute_def objGet_objSet objGet_objRemove)
qed

lemma objGet_removeLoop:
  "objGet (fst (removeLoop ks pa st)) k =
     (if k \<in> set ks \<and> objGet pa k = None then None else objGet (fst st) k)"
proof (induction ks arbitrary: st)
  case Nil
  show ?case by simp
next
  case (Cons key ks)
  then show ?case
    by (auto simp: removeAttribute_def objGet_objRemove)
qed

lemma setLoop_noop:
  "(\<forall>k \<in> set ks. if \<not> strictEq (objGet pa k) (Some JNull)
                    then strictEq (objGet a k) (objGet pa k) \<or> k = ''ychange''
                    else objGet a k = None)
   \<Longrightarrow> setLoop ks a pa (a, []) = (a, [])"
  by (induction ks) (auto simp: removeAttribute_def objRemove_absent)

lemma removeLoop_noop:
  "(\<forall>k \<in> set ks. objGet pa k = None \<longrightarrow> objGet a k = None)
   \<Longrightarrow> removeLoop ks pa (a, []) = (a, [])"
  by (induction ks) (auto simp: removeAttribute_def objRemove_absent)

lemma updateAttributes_idem:
  assumes nan: "\<And>k. objGet pa k = Some JNaN \<Longrightarrow> k = ''ychange''"
  shows "updateAttributes (fst (updateAttributes ya pa)) pa = (fst (updateAttributes ya pa), [])"
proof -
  let ?a = "fst (updateAttributes ya pa)"
  have get: "objGet ?a k =
     (if k \<in> set (objKeys ya) \<and> objGet pa k = None then None
      else if k \<in> set (objKeys pa)
      then (if \<not> strictEq (objGet pa k) (Some JNull)
            then (if \<not> strictEq (objGet ya k) (objGet pa k) \<and> k \<noteq> ''ychange''
                  then Some (the (objGet pa k)) else objGet ya k)
            else None)
      else objGet ya k)" for k
    unfolding updateAttributes_def
    by (simp add: objGet_removeLoop objGet_setLoop distinct_objKeys)
  have s1: "setLoop (objKeys pa) ?a pa (?a, []) = (?a, [])"
  proof (rule setLoop_noop, rule ballI)
    fix k assume k: "k \<in> set (objKeys pa)"
    then obtain v where v: "objGet pa k = Some v"
      by (auto simp: objKeys_objGet)
    show "if \<not> strictEq (objGet pa k) (Some JNull)
          then strictEq (objGet ?a k) (objGet pa k) \<or> k = ''ychange''
          else objGet ?a k = None"
    proof (cases "k = ''ychange''")
      case True
      then show ?thesis using k v by (auto simp: get)
    next
      case False
      with nan[of k] have "objGet pa k \<noteq> Some JNaN" by blast
      from strictEq_refl[OF this] show ?thesis using k v by (auto simp: get)
    qed
  qed
  have s2: "removeLoop (objKeys ?a) pa (?a, []) = (?a, [])"
  proof (rule removeLoop_noop, rule ballI, rule impI)
    fix k assume "k \<in> set (objKeys ?a)" and n: "objGet pa k = None"
    show "objGet ?a k = None"
      using n by (auto simp: get objKeys_objGet)
  qed
  show ?thesis
    unfolding updateAttributes_def[of ?a pa] s1 s2 ..
qed

lemma deleted_itemDelete: "deleted (itemDelete t)"
  by (cases t) (simp_all add: deleted_def)

lemma toArray_Cons: "toArray (c # cs) = (if deleted c then toArray cs else c # toArray cs)"
  by (simp add: toArray_def)

lemma toArray_Nil: "toArray [] = []"
  by (simp add: toArray_def)

lemma toArray_replaceVisible:
  "\<not> deleted t \<Longrightarrow> k < length (toArray cs) \<Longrightarrow> toArray (replaceVisible k t cs) = (toArray cs)[k := t]"
proof (induction cs arbitrary: k)
  case Nil
  then show ?case by (simp add: toArray_Nil)
next
  case (Cons c cs)
  then show ?case
    by (cases k) (auto simp: toArray_Cons)
qed

lemma toArray_typeListDelete:
  "toArray (typeListDelete k n cs) = take k (toArray cs) @ drop (k + n) (toArray cs)"
proof (induction cs arbitrary: k n)
  case Nil
  show ?case by (simp add: toArray_Nil)
next
  case (Cons c cs)
  show ?case
  proof (cases "n = 0")
    case True
    then show ?thesis by simp
  next
    case n: False
    show ?thesis
    proof (cases "deleted c")
      case True
      with n Cons show ?thesis by (simp add: toArray_Cons)
    next
      case vis: False
      show ?thesis
      proof (cases k)
        case 0
        with n vis Cons[of 0 "n - 1"] show ?thesis
          by (cases n) (simp_all add: toArray_Cons deleted_itemDelete)
      next
        case (Suc k')
        with n vis Cons[of k' n] show ?thesis
          by (simp add: toArray_Cons)
      qed
    qed
  qed
qed

lemma toArray_visible: "\<forall>t \<in> set ins. \<not> deleted t \<Longrightarrow> toArray ins = ins"
  by (induction ins) (auto simp: toArray_Cons toArray_Nil)

lemma toArray_append: "toArray (xs @ ys) = toArray xs @ toArray ys"
  by (simp add: toArray_def)

lemma toArray_typeListInsert:
  "\<forall>t \<in> set ins. \<not> deleted t \<Longrightarrow> k \<le> length (toArray cs) \<Longrightarrow>
   toArray (typeListInsert k ins cs) = take k (toArray cs) @ ins @ drop k (toArray cs)"
proof (induction k ins cs rule: typeListInsert.induct)
  case (1 ins cs)
  then show ?case by (simp add: toArray_append toArray_visible)
next
  case (2 index ins)
  then show ?case by (simp add: toArray_Nil)
next
  case (3 index ins c cs)
  then show ?case by (auto simp: toArray_Cons)
qed

lemma deleted_mappingSet: "deleted (mappingSet t p) = deleted t"
  by (cases "(t, p)" rule: mappingSet.cases) (simp_all add: deleted_def)

lemma linked_mappingSet: "equalYTypePNode t p = Inr True \<Longrightarrow> linked (mappingSet t p) p"
  by (cases "(t, p)" rule: mappingSet.cases) (simp_all add: linked_def)

lemma toArray_nth_visible: "k < length (toArray cs) \<Longrightarrow> \<not> deleted (toArray cs ! k)"
  using nth_mem[of k "toArray cs"] by (simp add: toArray_def)

lemma scanLeft_post:
  "scanLeft cs ps n l = Inr (cs', l') \<Longrightarrow> n \<le> length (toArray cs) \<Longrightarrow> l \<le> n \<Longrightarrow>
   (\<forall>i<l. linked (toArray cs ! i) (ps ! i)) \<Longrightarrow>
   length (toArray cs') = length (toArray cs) \<and> l' \<le> n \<and> l \<le> l'
   \<and> (\<forall>i<l'. linked (toArray cs' ! i) (ps ! i))"
proof (induction cs ps n l rule: scanLeft.induct)
  case (1 cs pChildren minCnt left)
  show ?case
  proof (cases "left < minCnt")
    case False
    with "1.prems" show ?thesis by (subst (asm) scanLeft.simps) auto
  next
    case lt: True
    let ?y = "toArray cs ! left" and ?p = "pChildren ! left"
    have vis: "\<not> deleted ?y"
      using lt "1.prems"(2) by (intro toArray_nth_visible) simp
    show ?thesis
    proof (cases "mappedIdentity (mappingGet ?y) ?p")
      case mi: True
      then have step: "scanLeft cs pChildren minCnt (left + 1) = Inr (cs', l')"
        using "1.prems"(1) lt by (subst (asm) scanLeft.simps) simp
      have "\<forall>i<left + 1. linked (toArray cs ! i) (pChildren ! i)"
        using "1.prems"(4) mi by (auto simp: less_Suc_eq linked_def)
      with "1.IH"(2)[OF lt refl refl _ step] mi "1.prems"(2) lt show ?thesis
        by auto
    next
      case nmi: False
      show ?thesis
      proof (cases "equalYTypePNode ?y ?p")
        case (Inl e)
        with "1.prems"(1) lt nmi show ?thesis
          by (subst (asm) scanLeft.simps) simp
      next
        case (Inr eq)
        show ?thesis
        proof (cases eq)
          case False
          with "1.prems" lt nmi Inr show ?thesis
            by (subst (asm) scanLeft.simps) auto
        next
          case True
          let ?cs1 = "replaceVisible left (mappingSet ?y ?p) cs"
          have step: "scanLeft ?cs1 pChildren minCnt (left + 1) = Inr (cs', l')"
            using "1.prems"(1) lt nmi Inr True by (subst (asm) scanLeft.simps) simp
          have ta: "toArray ?cs1 = (toArray cs)[left := mappingSet ?y ?p]"
            using lt "1.prems"(2) vis by (intro toArray_replaceVisible) (simp_all add: deleted_mappingSet)
          have "\<forall>i<left + 1. linked (toArray ?cs1 ! i) (pChildren ! i)"
            using "1.prems"(4) lt "1.prems"(2) Inr True
            by (auto simp: ta less_Suc_eq nth_list_update linked_mappingSet)
          with "1.IH"(1)[OF lt refl refl nmi Inr True step] lt "1.prems"(2) show ?thesis
            by (auto simp: ta)
        qed
      qed
    qed
  qed
qed

lemma scanned_update_left:
  assumes "scanned ys ps l r" and "l + r < length ys" and "l + r < length ps" and "linked t (ps ! l)"
  shows "scanned (ys[l := t]) ps (l + 1) r"
  using assms
  by (auto simp: scanned_def nth_list_update less_Suc_eq)

lemma scanned_update_right:
  assumes "scanned ys ps l r" and "l + r < length ys" and "l + r < length ps"
    and "linked t (ps ! (length ps - r - 1))"
  shows "scanned (ys[length ys - r - 1 := t]) ps l (r + 1)"
  using assms
  by (auto simp: scanned_def nth_list_update less_Suc_eq)

lemma scanned_keep_left:
  assumes "scanned ys ps l r" and "l + r < length ys" and "l + r < length ps" and "linked (ys ! l) (ps ! l)"
  shows "scanned ys ps (l + 1) r"
  using scanned_update_left[OF assms(1-3), of "ys ! l"] assms(4) by simp

lemma scanned_keep_right:
  assumes "scanned ys ps l r" and "l + r < length ys" and "l + r < length ps"
    and "linked (ys ! (length ys - r - 1)) (ps ! (length ps - r - 1))"
  shows "scanned ys ps l (r + 1)"
  using scanned_update_right[OF assms(1-3), of "ys ! (length ys - r - 1)"] assms(4) by simp

lemma scanRight_post:
  "scanRight cs ps n l r = Inr (cs', r') \<Longrightarrow> n \<le> length (toArray cs) \<Longrightarrow> n \<le> length ps \<Longrightarrow>
   scanned (toArray cs) ps l r \<Longrightarrow>
   length (toArray cs') = length (toArray cs) \<and> scanned (toArray cs') ps l r'"
proof (induction cs ps n l r rule: scanRight.induct)
  case (1 cs pChildren minCnt left right)
  show ?case
  proof (cases "right + left + 1 < minCnt")
    case False
    with "1.prems" show ?thesis by (subst (asm) scanRight.simps) auto
  next
    case lt: True
    let ?k = "length (toArray cs) - right - 1"
    let ?y = "toArray cs ! ?k" and ?p = "pChildren ! (length pChildren - right - 1)"
    have k: "?k < length (toArray cs)" using lt "1.prems"(2) by simp
    have vis: "\<not> deleted ?y" using k by (rule toArray_nth_visible)
    have b1: "left + right < length (toArray cs)" and b2: "left + right < length pChildren"
      using lt "1.prems"(2,3) by simp_all
    show ?thesis
    proof (cases "mappedIdentity (mappingGet ?y) ?p")
      case mi: True
      then have step: "scanRight cs pChildren minCnt left (right + 1) = Inr (cs', r')"
        using "1.prems"(1) lt by (subst (asm) scanRight.simps) (simp add: Let_def)
      have "scanned (toArray cs) pChildren left (right + 1)"
        using scanned_keep_right[OF "1.prems"(4) b1 b2] mi by (simp add: linked_def)
      with "1.IH"(2)[OF lt refl refl refl refl _ step "1.prems"(2,3)] mi show ?thesis
        by simp
    next
      case nmi: False
      show ?thesis
      proof (cases "equalYTypePNode ?y ?p")
        case (Inl e)
        with "1.prems"(1) lt nmi show ?thesis
          by (subst (asm) scanRight.simps) (simp add: Let_def)
      next
        case (Inr eq)
        show ?thesis
        proof (cases eq)
          case False
          with "1.prems" lt nmi Inr show ?thesis
            by (subst (asm) scanRight.simps) (auto simp: Let_def)
        next
          case True
          let ?cs1 = "replaceVisible ?k (mappingSet ?y ?p) cs"
          have step: "scanRight ?cs1 pChildren minCnt left (right + 1) = Inr (cs', r')"
            using "1.prems"(1) lt nmi Inr True by (subst (asm) scanRight.simps) (simp add: Let_def)
          have ta: "toArray ?cs1 = (toArray cs)[?k := mappingSet ?y ?p]"
            using k vis by (intro toArray_replaceVisible) (simp_all add: deleted_mappingSet)
          have sc: "scanned (toArray ?cs1) pChildren left (right + 1)"
            unfolding ta using scanned_update_right[OF "1.prems"(4) b1 b2] Inr True
            by (simp add: linked_mappingSet)
          have len: "length (toArray ?cs1) = length (toArray cs)"
            using arg_cong[OF ta, of length] by simp
          from "1.IH"(1)[OF lt refl refl refl refl nmi Inr True step] "1.prems"(2,3) sc len
          show ?thesis by simp
        qed
      qed
    qed
  qed
qed

lemma updateYFragment_result:
  "updateYFragment lib y t p = Inr (y1, t1, log) \<Longrightarrow>
   mappingGet t1 = Some (PSingle p) \<and> deleted t1 = deleted t"
  by (cases t) (auto simp: deleted_def split: if_splits prod.splits sum.splits)

lemma nextItem_visible: "nextItem y = (i, y1) \<Longrightarrow> \<not> itemDeleted i"
  by (auto simp: nextItem_def)

lemma createType_result:
  "createTypeFromTextOrElementNode lib y p = (t, y1) \<Longrightarrow> mappedIdentity (mappingGet t) p \<and> \<not> deleted t"
  by (cases "(lib, y, p)" rule: createTypeFromTextOrElementNode.cases)
     (auto simp: deleted_def split: prod.splits dest: nextItem_visible)

lemma createTypes_result:
  "createTypes lib y ps = (ts, y1) \<Longrightarrow>
   length ts = length ps \<and> (\<forall>i<length ps. mappedIdentity (mappingGet (ts ! i)) (ps ! i) \<and> \<not> deleted (ts ! i))"
proof (induction ps arbitrary: y ts y1)
  case Nil
  then show ?case by simp
next
  case (Cons p ps)
  obtain t y' where c: "createTypeFromTextOrElementNode lib y p = (t, y')" by fastforce
  obtain ts' y'' where cs: "createTypes lib y' ps = (ts', y'')" by fastforce
  from Cons.prems c cs have ts: "ts = t # ts'" by simp
  from Cons.IH[OF cs] createType_result[OF c] show ?case
    by (auto simp: ts nth_Cons split: nat.splits)
qed

lemma updateYText_result:
  "isXmlText ty \<Longrightarrow> updateYText lib ty ptexts = (t, tlog) \<Longrightarrow>
   mappingGet t = Some (PGroup ptexts) \<and> deleted t = deleted ty"
  by (cases ty) (auto simp: updateYText_def deleted_def Let_def split: prod.splits)

lemma equalYTypePNode_text:
  "isXmlText ty \<Longrightarrow> equalYTypePNode ty (PGroup ptexts) = equalYTextPText (textItems ty) ptexts"
  by (cases ty) auto

lemma replace_by_delete_insert:
  assumes "\<not> deleted t" and "l < length (toArray cs)"
  shows "toArray (typeListInsert l [t] (typeListDelete l 1 cs)) = (toArray cs)[l := t]"
proof -
  let ?ys = "toArray cs"
  have "toArray (typeListInsert l [t] (typeListDelete l 1 cs))
        = take l (take l ?ys @ drop (l + 1) ?ys) @ [t] @ drop l (take l ?ys @ drop (l + 1) ?ys)"
    using assms by (subst toArray_typeListInsert) (simp_all add: toArray_typeListDelete)
  also have "\<dots> = take l ?ys @ t # drop (Suc l) ?ys"
    using assms(2) by simp
  also have "\<dots> = ?ys[l := t]"
    using assms(2) by (simp add: upd_conv_take_nth_drop)
  finally show ?thesis .
qed

lemma case_text_other:
  "\<not> (b \<and> (\<exists>g. p = PGroup g)) \<Longrightarrow>
   (case (b, p) of (True, PGroup g) \<Rightarrow> A g | _ \<Rightarrow> B) = B"
  by (cases b; cases p) auto

lemma middle_post:
  "middle lib y cs ps yCnt l r log = Inr (y', cs', l', r', log') \<Longrightarrow>
   length (toArray cs) = yCnt \<Longrightarrow> scanned (toArray cs) ps l r \<Longrightarrow>
   length (toArray cs') = yCnt \<and> scanned (toArray cs') ps l' r'
   \<and> \<not> (l' + r' < yCnt \<and> l' + r' < length ps)"
proof (induction "length ps - l - r" arbitrary: y cs l r log rule: less_induct)
  case less
  let ?ys = "toArray cs"
  let ?goal = "length (toArray cs') = yCnt \<and> scanned (toArray cs') ps l' r'
     \<and> \<not> (l' + r' < yCnt \<and> l' + r' < length ps)"
  show ?case
  proof (cases "l + r < yCnt \<and> l + r < length ps")
    case False
    with less.prems show ?thesis by (subst (asm) middle.simps) auto
  next
    case guard: True
    let ?leftY = "?ys ! l" and ?leftP = "ps ! l"
    let ?k = "yCnt - r - 1"
    let ?rightY = "?ys ! ?k" and ?rightP = "ps ! (length ps - r - 1)"
    have b1: "l + r < length ?ys" and b2: "l + r < length ps"
      using guard less.prems(2) by simp_all
    have visL: "\<not> deleted ?leftY" using b1 by (intro toArray_nth_visible) simp
    have visR: "\<not> deleted ?rightY" using b1 less.prems(2) by (intro toArray_nth_visible) simp
    have k: "?k = length ?ys - r - 1" using less.prems(2) by simp
    have decL: "length ps - (l + 1) - r < length ps - l - r" using b2 by simp
    have decR: "length ps - l - (r + 1) < length ps - l - r" using b2 by simp
    note IH = less.hyps
    have left_step: "\<And>y1 t log1. middle lib y1 (replaceVisible l t cs) ps yCnt (l + 1) r log1
          = Inr (y', cs', l', r', log') \<Longrightarrow> \<not> deleted t \<Longrightarrow> linked t ?leftP \<Longrightarrow> ?goal"
    proof -
      fix y1 t log1
      assume m: "middle lib y1 (replaceVisible l t cs) ps yCnt (l + 1) r log1 = Inr (y', cs', l', r', log')"
        and vt: "\<not> deleted t" and lt: "linked t ?leftP"
      have ta: "toArray (replaceVisible l t cs) = ?ys[l := t]"
        using vt b1 by (intro toArray_replaceVisible) simp_all
      have len1: "length (toArray (replaceVisible l t cs)) = yCnt"
        unfolding ta using less.prems(2) by simp
      have sc1: "scanned (toArray (replaceVisible l t cs)) ps (l + 1) r"
        unfolding ta by (rule scanned_update_left[OF less.prems(3) b1 b2 lt])
      show ?goal
        by (rule IH[OF decL m len1 sc1])
    qed
    have right_step: "\<And>y1 t log1. middle lib y1 (replaceVisible ?k t cs) ps yCnt l (r + 1) log1
          = Inr (y', cs', l', r', log') \<Longrightarrow> \<not> deleted t \<Longrightarrow> linked t ?rightP \<Longrightarrow> ?goal"
    proof -
      fix y1 t log1
      assume m: "middle lib y1 (replaceVisible ?k t cs) ps yCnt l (r + 1) log1 = Inr (y', cs', l', r', log')"
        and vt: "\<not> deleted t" and lt: "linked t ?rightP"
      have ta: "toArray (replaceVisible ?k t cs) = ?ys[?k := t]"
        using vt b1 less.prems(2) by (intro toArray_replaceVisible) simp_all
      have sc: "scanned (?ys[?k := t]) ps l (r + 1)"
        unfolding k by (rule scanned_update_right[OF less.prems(3) b1 b2 lt])
      have len1: "length (toArray (replaceVisible ?k t cs)) = yCnt"
        unfolding ta using less.prems(2) by simp
      have sc1: "scanned (toArray (replaceVisible ?k t cs)) ps l (r + 1)"
        unfolding ta by (rule sc)
      show ?goal
        by (rule IH[OF decR m len1 sc1])
    qed
    show ?thesis
    proof (cases "isXmlText ?leftY \<and> (\<exists>ptexts. ?leftP = PGroup ptexts)")
      case True
      then obtain ptexts where tx: "isXmlText ?leftY" and pg: "?leftP = PGroup ptexts" by blast
      have eqn: "middle lib y cs ps yCnt l r log =
          (case equalYTextPText (textItems ?leftY) ptexts of
             Inl e \<Rightarrow> Inl e
           | Inr eq \<Rightarrow>
               if eq then middle lib y cs ps yCnt (l + 1) r log
               else (let (t, tlog) = updateYText lib ?leftY ptexts
                     in middle lib y (replaceVisible l t cs) ps yCnt (l + 1) r (log @ tlog)))"
        using guard tx pg by (subst middle.simps) (simp add: Let_def)
      show ?thesis
      proof (cases "equalYTextPText (textItems ?leftY) ptexts")
        case (Inl e)
        with eqn less.prems(1) show ?thesis by simp
      next
        case (Inr eq)
        show ?thesis
        proof (cases eq)
          case True
          with eqn Inr less.prems(1) have m: "middle lib y cs ps yCnt (l + 1) r log = Inr (y', cs', l', r', log')"
            by simp
          have "linked ?leftY ?leftP"
            using Inr True tx by (simp add: linked_def pg equalYTypePNode_text)
          from IH[OF decL m less.prems(2) scanned_keep_left[OF less.prems(3) b1 b2 this]]
          show ?thesis .
        next
          case False
          obtain t tlog where u: "updateYText lib ?leftY ptexts = (t, tlog)" by fastforce
          with eqn Inr False less.prems(1)
          have m: "middle lib y (replaceVisible l t cs) ps yCnt (l + 1) r (log @ tlog) = Inr (y', cs', l', r', log')"
            by simp
          from updateYText_result[OF tx u] visL have "\<not> deleted t" and "linked t ?leftP"
            by (simp_all add: linked_def pg)
          with left_step[OF m] show ?thesis by simp
        qed
      qed
    next
      case other: False
      have eqn: "middle lib y cs ps yCnt l r log =
          (case chooseUpdate ?leftY ?leftP ?rightY ?rightP of
             Inl e \<Rightarrow> Inl e
           | Inr (updateLeft, updateRight) \<Rightarrow>
               if updateLeft
               then (case ?leftP of
                       PSingle lp \<Rightarrow>
                         (case updateYFragment lib y ?leftY lp of
                            Inl e \<Rightarrow> Inl e
                          | Inr (y1, t, ulog) \<Rightarrow>
                              middle lib y1 (replaceVisible l t cs) ps yCnt (l + 1) r (log @ ulog))
                     | PGroup _ \<Rightarrow> Inl UnexpectedCase)
               else if updateRight
               then (case ?rightP of
                       PSingle rp \<Rightarrow>
                         (case updateYFragment lib y ?rightY rp of
                            Inl e \<Rightarrow> Inl e
                          | Inr (y1, t, ulog) \<Rightarrow>
                              middle lib y1 (replaceVisible ?k t cs) ps yCnt l (r + 1) (log @ ulog))
                     | PGroup _ \<Rightarrow> Inl UnexpectedCase)
               else (let (t, y1) = createTypeFromTextOrElementNode lib y ?leftP;
                         cs1 = typeListInsert l [t] (typeListDelete l 1 cs)
                     in middle lib y1 cs1 ps yCnt (l + 1) r
                          (log @ [DeleteChildren l 1, InsertChildren l 1])))"
        by (subst middle.simps) (simp only: guard if_True simp_thms Let_def case_text_other[OF other])
      show ?thesis
      proof (cases "chooseUpdate ?leftY ?leftP ?rightY ?rightP")
        case (Inl e)
        with eqn less.prems(1) show ?thesis by simp
      next
        case (Inr ch)
        obtain updateLeft updateRight where ch: "ch = (updateLeft, updateRight)" by (cases ch)
        show ?thesis
        proof (cases updateLeft)
          case True
          show ?thesis
          proof (cases ?leftP)
            case (PGroup x)
            with eqn Inr ch True less.prems(1) show ?thesis by simp
          next
            case (PSingle lp)
            show ?thesis
            proof (cases "updateYFragment lib y ?leftY lp")
              case (Inl e)
              with eqn Inr ch True PSingle less.prems(1) show ?thesis by simp
            next
              case (Inr res)
              obtain y1 t ulog where res: "res = (y1, t, ulog)" by (cases res)
              from eqn \<open>chooseUpdate ?leftY ?leftP ?rightY ?rightP = Inr ch\<close> ch True PSingle Inr res less.prems(1)
              have m: "middle lib y1 (replaceVisible l t cs) ps yCnt (l + 1) r (log @ ulog) = Inr (y', cs', l', r', log')"
                by simp
              from updateYFragment_result[OF Inr[unfolded res]] visL
              have "\<not> deleted t" and "linked t ?leftP"
                by (simp_all add: linked_def PSingle)
              with left_step[OF m] show ?thesis by simp
            qed
          qed
        next
          case nl: False
          show ?thesis
          proof (cases updateRight)
            case True
            show ?thesis
            proof (cases ?rightP)
              case (PGroup x)
              with eqn Inr ch nl True less.prems(1) show ?thesis by simp
            next
              case (PSingle rp)
              show ?thesis
              proof (cases "updateYFragment lib y ?rightY rp")
                case (Inl e)
                with eqn \<open>chooseUpdate ?leftY ?leftP ?rightY ?rightP = Inr ch\<close> ch nl True PSingle less.prems(1)
                show ?thesis by simp
              next
                case (Inr res)
                obtain y1 t ulog where res: "res = (y1, t, ulog)" by (cases res)
                from eqn \<open>chooseUpdate ?leftY ?leftP ?rightY ?rightP = Inr ch\<close> ch nl True PSingle Inr res less.prems(1)
                have m: "middle lib y1 (replaceVisible ?k t cs) ps yCnt l (r + 1) (log @ ulog) = Inr (y', cs', l', r', log')"
                  by simp
                from updateYFragment_result[OF Inr[unfolded res]] visR PSingle
                have "\<not> deleted t" and "linked t ?rightP"
                  by (simp_all add: linked_def)
                with right_step[OF m] show ?thesis by simp
              qed
            qed
          next
            case nr: False
            obtain t y1 where c: "createTypeFromTextOrElementNode lib y ?leftP = (t, y1)" by fastforce
            from eqn Inr ch nl nr c less.prems(1)
            have m: "middle lib y1 (typeListInsert l [t] (typeListDelete l 1 cs)) ps yCnt (l + 1) r
                       (log @ [DeleteChildren l 1, InsertChildren l 1]) = Inr (y', cs', l', r', log')"
              by simp
            from createType_result[OF c] have vt: "\<not> deleted t" and lt: "linked t ?leftP"
              by (simp_all add: linked_def)
            have ta: "toArray (typeListInsert l [t] (typeListDelete l 1 cs)) = ?ys[l := t]"
              using vt b1 by (intro replace_by_delete_insert) simp_all
            have len1: "length (toArray (typeListInsert l [t] (typeListDelete l 1 cs))) = yCnt"
              unfolding ta using less.prems(2) by simp
            have sc1: "scanned (toArray (typeListInsert l [t] (typeListDelete l 1 cs))) ps (l + 1) r"
              unfolding ta by (rule scanned_update_left[OF less.prems(3) b1 b2 lt])
            show ?thesis
              by (rule IH[OF decL m len1 sc1])
          qed
        qed
      qed
    qed
  qed
qed

lemma finish_post:
  assumes fin: "finish lib y cs ps yCnt l r = (y', cs', log)"
    and len: "length (toArray cs) = yCnt"
    and sc: "scanned (toArray cs) ps l r"
    and ex: "\<not> (l + r < yCnt \<and> l + r < length ps)"
  shows "length (toArray cs') = length ps \<and> (\<forall>i<length ps. linked (toArray cs' ! i) (ps ! i))"
proof -
  let ?ys = "toArray cs" and ?m = "length ps"
  from sc len have b1: "l + r \<le> yCnt" and b2: "l + r \<le> ?m"
    and L: "\<And>i. i < l \<Longrightarrow> linked (?ys ! i) (ps ! i)"
    and R: "\<And>j. j < r \<Longrightarrow> linked (?ys ! (yCnt - 1 - j)) (ps ! (?m - 1 - j))"
    by (auto simp: scanned_def)
  let ?cs1 = "if yCnt - l - r > 0 then typeListDelete l (yCnt - l - r) cs else cs"
  let ?zs = "take l ?ys @ drop (yCnt - r) ?ys"
  have zs: "toArray ?cs1 = ?zs"
  proof (cases "yCnt - l - r > 0")
    case True
    then have "l + (yCnt - l - r) = yCnt - r" by simp
    with True show ?thesis by (simp add: toArray_typeListDelete)
  next
    case False
    with b1 have "yCnt - r = l" by simp
    with False show ?thesis by simp
  qed
  have lzs: "length ?zs = l + r" using len b1 by simp
  have right: "\<And>i. ?m - r \<le> i \<Longrightarrow> i < ?m \<Longrightarrow> linked (?ys ! (yCnt - r + (i - (?m - r)))) (ps ! i)"
  proof -
    fix i assume i: "?m - r \<le> i" "i < ?m"
    let ?j = "?m - 1 - i"
    have j: "?j < r" using i b2 by simp
    have "yCnt - 1 - ?j = yCnt - r + (i - (?m - r))" using i b1 b2 j by simp
    moreover have "?m - 1 - ?j = i" using i by simp
    ultimately show "linked (?ys ! (yCnt - r + (i - (?m - r)))) (ps ! i)"
      using R[OF j] by simp
  qed
  show ?thesis
  proof (cases "l + r < ?m")
    case False
    with b2 have m: "?m = l + r" by simp
    from fin False have cs': "cs' = ?cs1"
      by (auto simp: finish_def Let_def split: if_splits prod.splits)
    have ta: "toArray cs' = ?zs" unfolding cs' by (rule zs)
    have "\<forall>i<?m. linked (toArray cs' ! i) (ps ! i)"
    proof (intro allI impI)
      fix i assume i: "i < ?m"
      show "linked (toArray cs' ! i) (ps ! i)"
      proof (cases "i < l")
        case True
        then show ?thesis using L[OF True] len b1 by (simp add: ta nth_append)
      next
        case False
        then have "?m - r \<le> i" using m by simp
        from right[OF this i] False m len b1 show ?thesis
          by (simp add: ta nth_append)
      qed
    qed
    then show ?thesis using lzs m by (simp add: ta)
  next
    case True
    let ?pins = "take (?m - r - l) (drop l ps)"
    obtain ins y1 where c: "createTypes lib y ?pins = (ins, y1)" by fastforce
    from fin True c have cs': "cs' = typeListInsert l ins ?cs1"
      by (auto simp: finish_def Let_def split: if_splits prod.splits)
    from createTypes_result[OF c] True
    have lins: "length ins = ?m - r - l"
      and ins: "\<And>i. i < ?m - r - l \<Longrightarrow> mappedIdentity (mappingGet (ins ! i)) (ps ! (l + i)) \<and> \<not> deleted (ins ! i)"
      by auto
    have vis: "\<forall>t \<in> set ins. \<not> deleted t"
      using ins lins by (auto simp: in_set_conv_nth)
    have "l \<le> length (toArray ?cs1)"
      unfolding zs lzs by simp
    from toArray_typeListInsert[OF vis this]
    have "toArray cs' = take l ?zs @ ins @ drop l ?zs"
      unfolding cs' zs .
    then have ta: "toArray cs' = take l ?ys @ ins @ drop (yCnt - r) ?ys"
      using len b1 by simp
    have "\<forall>i<?m. linked (toArray cs' ! i) (ps ! i)"
    proof (intro allI impI)
      fix i assume i: "i < ?m"
      consider "i < l" | "l \<le> i" "i < ?m - r" | "?m - r \<le> i" by linarith
      then show "linked (toArray cs' ! i) (ps ! i)"
      proof cases
        case 1
        then show ?thesis using L[OF 1] len b1 by (simp add: ta nth_append)
      next
        case 2
        then have il: "i - l < ?m - r - l" by simp
        from ins[OF il] il 2 len b1 lins show ?thesis
          by (simp add: ta nth_append linked_def)
      next
        case 3
        have lA: "length (take l ?ys) = l" using len b1 by simp
        have n1: "\<not> i < l" using 3 True by simp
        have n2: "\<not> i - l < length ins" using 3 True lins by simp
        have e: "i - l - length ins = i - (?m - r)" using 3 True lins by simp
        have "toArray cs' ! i = (ins @ drop (yCnt - r) ?ys) ! (i - l)"
          unfolding ta using n1 lA by (simp only: nth_append if_False)
        also have "\<dots> = drop (yCnt - r) ?ys ! (i - (?m - r))"
          using n2 e by (simp only: nth_append if_False)
        also have "\<dots> = ?ys ! (yCnt - r + (i - (?m - r)))"
          using 3 i len b1 by simp
        finally have "toArray cs' ! i = ?ys ! (yCnt - r + (i - (?m - r)))" .
        with right[OF 3 i] show ?thesis by simp
      qed
    qed
    moreover have "length (toArray cs') = ?m"
      using len b1 b2 lins True by (simp add: ta)
    ultimately show ?thesis by simp
  qed
qed


declare updateYFragment.simps[simp del]

lemma updateChildren_post:
  assumes run: "updateChildren lib y cs P log = Inr (y', cs', log')"
  shows "length (toArray cs') = length (normalizePNodeContent P)
     \<and> (\<forall>i<length (normalizePNodeContent P). linked (toArray cs' ! i) (normalizePNodeContent P ! i))"
proof -
  let ?ps = "normalizePNodeContent P"
  let ?yCnt = "length (toArray cs)"
  let ?n = "min (length ?ps) ?yCnt"
  from run obtain cs1 l cs2 r y1 cs3 l1 r1 log2 log3 where
    sl: "scanLeft cs ?ps ?n 0 = Inr (cs1, l)" and
    sr: "scanRight cs1 ?ps ?n l 0 = Inr (cs2, r)" and
    mi: "middle lib y cs2 ?ps ?yCnt l r log = Inr (y1, cs3, l1, r1, log2)" and
    fi: "finish lib y1 cs3 ?ps ?yCnt l1 r1 = (y', cs', log3)"
    by (subst (asm) updateChildren.simps) (auto simp: Let_def split: sum.splits prod.splits)
  from scanLeft_post[OF sl] have
    len1: "length (toArray cs1) = ?yCnt" and ln: "l \<le> ?n"
    and L: "\<forall>i<l. linked (toArray cs1 ! i) (?ps ! i)"
    by auto
  have sc1: "scanned (toArray cs1) ?ps l 0"
    using len1 ln L by (simp add: scanned_def)
  from scanRight_post[OF sr _ _ sc1] len1 have
    len2: "length (toArray cs2) = ?yCnt" and sc2: "scanned (toArray cs2) ?ps l r"
    by auto
  from middle_post[OF mi len2 sc2] have
    len3: "length (toArray cs3) = ?yCnt" and sc3: "scanned (toArray cs3) ?ps l1 r1"
    and ex: "\<not> (l1 + r1 < ?yCnt \<and> l1 + r1 < length ?ps)"
    by auto
  from finish_post[OF fi len3 sc3 ex] show ?thesis .
qed

lemma newMapping_mappingSet: "newMapping (mappingSet t p) = newMapping t"
  by (cases "(t, p)" rule: mappingSet.cases) simp_all

lemma newMapping_replaceVisible:
  "k < length (toArray cs) \<Longrightarrow> newMapping t = newMapping (toArray cs ! k) \<Longrightarrow>
   map newMapping (replaceVisible k t cs) = map newMapping cs"
proof (induction cs arbitrary: k)
  case Nil
  then show ?case by simp
next
  case (Cons c cs)
  then show ?case
    by (cases k) (auto simp: toArray_Cons)
qed

lemma scanLeft_linked:
  "n \<le> length (toArray cs) \<Longrightarrow> l \<le> n \<Longrightarrow> (\<forall>i<n. linked (toArray cs ! i) (ps ! i)) \<Longrightarrow>
   \<exists>cs'. scanLeft cs ps n l = Inr (cs', n) \<and> map newMapping cs' = map newMapping cs
     \<and> length (toArray cs') = length (toArray cs)"
proof (induction cs ps n l rule: scanLeft.induct)
  case (1 cs pChildren minCnt left)
  show ?case
  proof (cases "left < minCnt")
    case False
    with "1.prems" have "left = minCnt" by simp
    then show ?thesis by (subst scanLeft.simps) simp
  next
    case lt: True
    let ?t = "toArray cs ! left" and ?p = "pChildren ! left"
    from lt "1.prems" have k: "left < length (toArray cs)" by simp
    show ?thesis
    proof (cases "mappedIdentity (mappingGet ?t) ?p")
      case True
      from "1.IH"(2)[OF lt refl refl _ "1.prems"(1) _ "1.prems"(3)] True lt
      obtain cs' where "scanLeft cs pChildren minCnt (left + 1) = Inr (cs', minCnt)"
        "map newMapping cs' = map newMapping cs" "length (toArray cs') = length (toArray cs)"
        by auto
      with True lt show ?thesis by (subst scanLeft.simps) simp
    next
      case False
      from "1.prems"(3) lt have "linked ?t ?p" by simp
      with False have eq: "equalYTypePNode ?t ?p = Inr True" by (simp add: linked_def)
      let ?cs1 = "replaceVisible left (mappingSet ?t ?p) cs"
      have nd: "\<not> deleted (mappingSet ?t ?p)"
        using toArray_nth_visible[OF k] by (simp add: deleted_mappingSet)
      have ta: "toArray ?cs1 = (toArray cs)[left := mappingSet ?t ?p]"
        by (rule toArray_replaceVisible[OF nd k])
      have p1: "minCnt \<le> length (toArray ?cs1)" unfolding ta using "1.prems"(1) by simp
      have p3: "\<forall>i<minCnt. linked (toArray ?cs1 ! i) (pChildren ! i)"
        unfolding ta using "1.prems"(3) k linked_mappingSet[OF eq]
        by (auto simp: nth_list_update)
      from "1.IH"(1)[OF lt refl refl False eq _ p1 _ p3] lt
      obtain cs' where r: "scanLeft ?cs1 pChildren minCnt (left + 1) = Inr (cs', minCnt)"
        "map newMapping cs' = map newMapping ?cs1" "length (toArray cs') = length (toArray ?cs1)"
        by auto
      have "map newMapping ?cs1 = map newMapping cs"
        by (rule newMapping_replaceVisible[OF k]) (simp add: newMapping_mappingSet)
      moreover have "length (toArray ?cs1) = length (toArray cs)" unfolding ta by simp
      ultimately show ?thesis using r False eq lt
        by (subst scanLeft.simps) simp
    qed
  qed
qed

lemma updateChildren_linked:
  assumes len: "length (toArray cs) = length (normalizePNodeContent P)"
    and lk: "\<forall>i<length (normalizePNodeContent P). linked (toArray cs ! i) (normalizePNodeContent P ! i)"
  shows "\<exists>cs'. updateChildren lib y cs P log = Inr (y, cs', log) \<and> map newMapping cs' = map newMapping cs"
proof -
  let ?ps = "normalizePNodeContent P"
  let ?n = "length ?ps"
  from scanLeft_linked[of ?n cs 0 ?ps] len lk
  obtain cs1 where sl: "scanLeft cs ?ps ?n 0 = Inr (cs1, ?n)"
    and nm: "map newMapping cs1 = map newMapping cs"
    and len1: "length (toArray cs1) = ?n"
    by auto
  have sr: "scanRight cs1 ?ps ?n ?n 0 = Inr (cs1, 0)"
    by (subst scanRight.simps) simp
  have mi: "middle lib y cs1 ?ps ?n ?n 0 log = Inr (y, cs1, ?n, 0, log)"
    by (subst middle.simps) simp
  have fi: "finish lib y cs1 ?ps ?n ?n 0 = (y, cs1, [])"
    by (simp add: finish_def)
  have "updateChildren lib y cs P log = Inr (y, cs1, log)"
    by (subst updateChildren.simps) (simp add: len sl sr mi fi)
  with nm show ?thesis by blast
qed

lemma updateChildren_idem:
  assumes "updateChildren lib y cs P log = Inr (y1, cs1, log1)"
  shows "\<exists>cs2. updateChildren lib y1 cs1 P log' = Inr (y1, cs2, log') \<and> map newMapping cs2 = map newMapping cs1"
  using updateChildren_post[OF assms] by (intro updateChildren_linked) auto

text \<open>
  C3 (amended). Running \<^verbatim>\<open>updateYFragment\<close> again right after a completed run, on
  the result of that run, with the same local node and the mapping the first run left,
  performs no mutation on the replicated tree: the second run returns the empty list of
  mutations and the same document state, and the tree it returns differs from its
  argument in mapping entries at most (\<open>newMapping\<close> erases them). First conjunct: the
  call on the bound root, as the binding makes it; it holds for every local node,
  whatever the attributes below the root are, since the second run finds every child
  linked to its local child and recurses into none. Second conjunct: the call on an
  element, where the name test and the attribute pass come first; it holds when no
  attribute of the local node other than \<^verbatim>\<open>ychange\<close> is \<^verbatim>\<open>NaN\<close>.
\<close>

theorem updateYFragment_idempotent:
  "(updateYFragmentRoot lib y R P = Inr (y1, R1, log1) \<longrightarrow>
      (\<exists>m cs1 cs2. R1 = YXmlFragment m cs1
         \<and> updateYFragmentRoot lib y1 R1 P = Inr (y1, YXmlFragment m cs2, [])
         \<and> map newMapping cs2 = map newMapping cs1))
   \<and> (updateYFragment lib y' F Q = Inr (y2, F1, log2)
        \<and> (\<forall>k. objGet (attrs Q) k = Some JNaN \<longrightarrow> k = ''ychange'') \<longrightarrow>
      (\<exists>F2. updateYFragment lib y2 F1 Q = Inr (y2, F2, []) \<and> newMapping F2 = newMapping F1))"
proof (intro conjI impI)
  assume run: "updateYFragmentRoot lib y R P = Inr (y1, R1, log1)"
  obtain m cs where R: "R = YXmlFragment m cs" by (cases R)
  from run R obtain cs1 where u: "updateChildren lib y cs P [] = Inr (y1, cs1, log1)"
    and R1: "R1 = YXmlFragment (Some P) cs1"
    by (auto split: sum.splits prod.splits)
  from updateChildren_idem[OF u, of "[]"] obtain cs2 where
    "updateChildren lib y1 cs1 P [] = Inr (y1, cs2, [])" "map newMapping cs2 = map newMapping cs1"
    by blast
  with R1 show "\<exists>m cs1 cs2. R1 = YXmlFragment m cs1
         \<and> updateYFragmentRoot lib y1 R1 P = Inr (y1, YXmlFragment m cs2, [])
         \<and> map newMapping cs2 = map newMapping cs1"
    by simp
next
  assume both: "updateYFragment lib y' F Q = Inr (y2, F1, log2)
        \<and> (\<forall>k. objGet (attrs Q) k = Some JNaN \<longrightarrow> k = ''ychange'')"
  then have run: "updateYFragment lib y' F Q = Inr (y2, F1, log2)"
    and nan: "\<And>k. objGet (attrs Q) k = Some JNaN \<Longrightarrow> k = ''ychange''"
    by auto
  from run obtain i m name a cs where F: "F = YXmlElement i m name a cs"
    by (cases F) (simp_all add: updateYFragment.simps)
  let ?a1 = "fst (updateAttributes a (attrs Q))"
  let ?l1 = "snd (updateAttributes a (attrs Q))"
  from run F obtain cs1 where nm: "name = typeName Q"
    and u: "updateChildren lib y' cs Q ?l1 = Inr (y2, cs1, log2)"
    and F1: "F1 = YXmlElement i (Some Q) name ?a1 cs1"
    by (auto simp: updateYFragment.simps split: if_splits sum.splits prod.splits)
  from updateChildren_idem[OF u, of "[]"] obtain cs2 where
    u2: "updateChildren lib y2 cs1 Q [] = Inr (y2, cs2, [])" and n2: "map newMapping cs2 = map newMapping cs1"
    by blast
  have "updateYFragment lib y2 F1 Q = Inr (y2, YXmlElement i (Some Q) name ?a1 cs2, [])"
    unfolding F1 by (simp add: updateYFragment.simps nm updateAttributes_idem[OF nan] u2)
  with n2 F1 show "\<exists>F2. updateYFragment lib y2 F1 Q = Inr (y2, F2, []) \<and> newMapping F2 = newMapping F1"
    by simp
qed

text \<open>
  The theorem at a paragraph whose attribute and text differ from the local paragraph's,
  alone and below a root whose local document has one more child: the first run issues
  five and six mutations, the second none.
\<close>

theorem updateYFragment_idempotent_witness:
  "updateYFragmentRoot plainYjs (YDoc 2 0)
      (YXmlFragment None
         [YXmlElement (Item (1, 0) False) None ''p'' [(''a'', JNum 1)]
            [YXmlText (Item (1, 1) False) None [TextItem False (ContentString ''a'')]]])
      (PNode 10 ''doc'' [] [PNode 11 ''p'' [(''b'', JNum 2)] [PText 12 ''x'' []], PNode 13 ''q'' [] []])
    = Inr (YDoc 2 1,
        YXmlFragment
          (Some (PNode 10 ''doc'' [] [PNode 11 ''p'' [(''b'', JNum 2)] [PText 12 ''x'' []], PNode 13 ''q'' [] []]))
          [YXmlElement (Item (1, 0) False) (Some (PNode 11 ''p'' [(''b'', JNum 2)] [PText 12 ''x'' []])) ''p''
             [(''b'', JNum 2)]
             [YXmlText (Item (1, 1) False) (Some [PText 12 ''x'' []]) [TextItem False (ContentString ''x'')]],
           YXmlElement (Item (2, 0) False) (Some (PNode 13 ''q'' [] [])) ''q'' [] []],
        [SetAttribute ''b'' (JNum 2), RemoveAttribute ''a'', TextDelete 0 1, TextInsert 0 ''x'', TextFormat,
         InsertChildren 1 1])
   \<and> (\<exists>cs2. updateYFragmentRoot plainYjs (YDoc 2 1)
         (YXmlFragment
            (Some (PNode 10 ''doc'' [] [PNode 11 ''p'' [(''b'', JNum 2)] [PText 12 ''x'' []], PNode 13 ''q'' [] []]))
            [YXmlElement (Item (1, 0) False) (Some (PNode 11 ''p'' [(''b'', JNum 2)] [PText 12 ''x'' []])) ''p''
               [(''b'', JNum 2)]
               [YXmlText (Item (1, 1) False) (Some [PText 12 ''x'' []]) [TextItem False (ContentString ''x'')]],
             YXmlElement (Item (2, 0) False) (Some (PNode 13 ''q'' [] [])) ''q'' [] []])
         (PNode 10 ''doc'' [] [PNode 11 ''p'' [(''b'', JNum 2)] [PText 12 ''x'' []], PNode 13 ''q'' [] []])
       = Inr (YDoc 2 1,
           YXmlFragment
             (Some (PNode 10 ''doc'' [] [PNode 11 ''p'' [(''b'', JNum 2)] [PText 12 ''x'' []], PNode 13 ''q'' [] []]))
             cs2,
           []))
   \<and> updateYFragment plainYjs (YDoc 2 0)
        (YXmlElement (Item (1, 0) False) None ''p'' [(''a'', JNum 1)]
           [YXmlText (Item (1, 1) False) None [TextItem False (ContentString ''a'')]])
        (PNode 11 ''p'' [(''b'', JNum 2)] [PText 12 ''x'' []])
    = Inr (YDoc 2 0,
        YXmlElement (Item (1, 0) False) (Some (PNode 11 ''p'' [(''b'', JNum 2)] [PText 12 ''x'' []])) ''p''
          [(''b'', JNum 2)]
          [YXmlText (Item (1, 1) False) (Some [PText 12 ''x'' []]) [TextItem False (ContentString ''x'')]],
        [SetAttribute ''b'' (JNum 2), RemoveAttribute ''a'', TextDelete 0 1, TextInsert 0 ''x'', TextFormat])
   \<and> (\<exists>F2. updateYFragment plainYjs (YDoc 2 0)
         (YXmlElement (Item (1, 0) False) (Some (PNode 11 ''p'' [(''b'', JNum 2)] [PText 12 ''x'' []])) ''p''
            [(''b'', JNum 2)]
            [YXmlText (Item (1, 1) False) (Some [PText 12 ''x'' []]) [TextItem False (ContentString ''x'')]])
         (PNode 11 ''p'' [(''b'', JNum 2)] [PText 12 ''x'' []])
       = Inr (YDoc 2 0, F2, []))"
proof -
  let ?F = "YXmlElement (Item (1, 0) False) None ''p'' [(''a'', JNum 1)]
            [YXmlText (Item (1, 1) False) None [TextItem False (ContentString ''a'')]]"
  let ?P = "PNode 11 ''p'' [(''b'', JNum 2)] [PText 12 ''x'' []]"
  let ?D = "PNode 10 ''doc'' [] [?P, PNode 13 ''q'' [] []]"
  let ?F1 = "YXmlElement (Item (1, 0) False) (Some ?P) ''p'' [(''b'', JNum 2)]
             [YXmlText (Item (1, 1) False) (Some [PText 12 ''x'' []]) [TextItem False (ContentString ''x'')]]"
  let ?cs1 = "[?F1, YXmlElement (Item (2, 0) False) (Some (PNode 13 ''q'' [] [])) ''q'' [] []]"
  let ?log = "[SetAttribute ''b'' (JNum 2), RemoveAttribute ''a'', TextDelete 0 1, TextInsert 0 ''x'', TextFormat]"
  have el: "updateYFragment plainYjs (YDoc 2 0) ?F ?P = Inr (YDoc 2 0, ?F1, ?log)"
    by (simp add: updateYFragment.simps updateChildren.simps scanLeft.simps scanRight.simps middle.simps
        normalizePNodeContent_def toArray_def deleted_def nonNullKeys_def objKeys_eval objGet_def
        equalYTextPText_def toDelta_def packStr_def finish_def updateAttributes_def setAttribute_def
        removeAttribute_def objRemove_def updateYText_def ytextTrans_def objectAssign_def
        marksToAttributes_def
        plainYjs_def)
  have root: "updateYFragmentRoot plainYjs (YDoc 2 0) (YXmlFragment None [?F]) ?D
      = Inr (YDoc 2 1, YXmlFragment (Some ?D) ?cs1, ?log @ [InsertChildren 1 1])"
    by (simp add: updateYFragment.simps updateChildren.simps scanLeft.simps scanRight.simps middle.simps
        chooseUpdate_def computeChildEqualityFactor_def cefLeft.simps cefRight.simps
        normalizePNodeContent_def toArray_def deleted_def nonNullKeys_def objKeys_eval objGet_def
        equalYTextPText_def toDelta_def packStr_def finish_def updateAttributes_def setAttribute_def
        removeAttribute_def objRemove_def updateYText_def ytextTrans_def objectAssign_def
        marksToAttributes_def
        initialAttributes_def nextItem_def plainYjs_def)
  have nn: "\<forall>k. objGet (attrs ?P) k = Some JNaN \<longrightarrow> k = ''ychange''"
    by (simp add: objGet_def)
  from updateYFragment_idempotent[of plainYjs "YDoc 2 0" "YXmlFragment None [?F]" ?D "YDoc 2 1"
      "YXmlFragment (Some ?D) ?cs1" "?log @ [InsertChildren 1 1]" "YDoc 2 0" ?F ?P "YDoc 2 0" ?F1 ?log] el root nn
  show ?thesis by auto
qed

text \<open>
  The claim as stated fails on an element when an attribute of the local node is
  \<^verbatim>\<open>NaN\<close>: the test \<^verbatim>\<open>yDomAttrs[key] !== pAttrs[key]\<close> of line 730 is true on
  every run, and the second run sets the attribute again.
\<close>

theorem updateYFragment_sets_NaN_again:
  "updateYFragment plainYjs (YDoc 2 0) (YXmlElement (Item (1, 0) False) None ''p'' [] [])
       (PNode 11 ''p'' [(''a'', JNaN)] [])
     = Inr (YDoc 2 0, YXmlElement (Item (1, 0) False) (Some (PNode 11 ''p'' [(''a'', JNaN)] [])) ''p''
                 [(''a'', JNaN)] [],
            [SetAttribute ''a'' JNaN])
   \<and> updateYFragment plainYjs (YDoc 2 0)
       (YXmlElement (Item (1, 0) False) (Some (PNode 11 ''p'' [(''a'', JNaN)] [])) ''p'' [(''a'', JNaN)] [])
       (PNode 11 ''p'' [(''a'', JNaN)] [])
     = Inr (YDoc 2 0, YXmlElement (Item (1, 0) False) (Some (PNode 11 ''p'' [(''a'', JNaN)] [])) ''p''
                 [(''a'', JNaN)] [],
            [SetAttribute ''a'' JNaN])"
  by (simp add: updateYFragment.simps updateChildren.simps scanLeft.simps scanRight.simps middle.simps
      normalizePNodeContent_def toArray_def finish_def updateAttributes_def setAttribute_def
      objKeys_eval objGet_def)

section \<open>Claims about the position translators\<close>

lemma nodeSize_nonneg: "0 \<le> nodeSize leaf p"
proof (induction leaf p rule: nodeSize.induct)
  case (1 leaf r t ms)
  show ?case by simp
next
  case (2 leaf r name a c)
  show ?case
  proof (cases "leaf name")
    case True
    then show ?thesis by simp
  next
    case False
    with 2 have "\<forall>x \<in> set c. 0 \<le> nodeSize leaf x" by simp
    then have "0 \<le> sum_list (map (nodeSize leaf) c)" by (intro sum_list_nonneg) auto
    with False show ?thesis by simp
  qed
qed

lemma countVisible_nonneg: "(\<forall>it \<in> set its. 0 \<le> infoLength it) \<Longrightarrow> 0 \<le> countVisible its"
  by (induction its) auto

lemma contentLength_nonneg: "0 \<le> contentLength c"
  by (cases c) simp_all

lemma ylength_nonneg: "0 \<le> ylength t"
proof (cases t)
  case (YXmlElement i m name a cs)
  then show ?thesis by (simp add: countVisible_nonneg childItemInfo_def)
next
  case (YXmlText i m its)
  have "\<forall>it \<in> set (map textItemInfo its). 0 \<le> infoLength it"
  proof
    fix it assume "it \<in> set (map textItemInfo its)"
    then obtain x where "it = textItemInfo x" by auto
    then show "0 \<le> infoLength it" by (cases x) (simp add: contentLength_nonneg)
  qed
  with YXmlText show ?thesis by (simp add: countVisible_nonneg)
next
  case (YXmlHook i)
  then show ?thesis by simp
qed

lemma pNodeSize_nonneg: "0 \<le> pNodeSize leaf t"
  by (cases t) (auto simp: nodeSize_nonneg split: option.splits)

lemma ysize_nonneg: "0 \<le> ysize leaf t"
  by (cases t) (simp_all add: ylength_nonneg pNodeSize_nonneg del: ylength.simps pNodeSize.simps)

lemma contentSize_nonneg: "0 \<le> contentSize leaf cs"
  unfolding contentSize_def by (intro sum_list_nonneg) (auto simp: ysize_nonneg)

lemma contentSize_Cons:
  "contentSize leaf (c # cs) = (if deleted c then 0 else ysize leaf c) + contentSize leaf cs"
  by (simp add: contentSize_def toArray_def)

lemma skipDeleted_Some:
  "skipDeleted xs k0 = Some j \<Longrightarrow>
   j - k0 < length xs \<and> \<not> deleted (xs ! (j - k0)) \<and> contentSize leaf xs = contentSize leaf (drop (j - k0) xs)"
proof (induction xs arbitrary: k0)
  case Nil
  then show ?case by simp
next
  case (Cons c xs)
  show ?case
  proof (cases "deleted c")
    case True
    with Cons.prems have s: "skipDeleted xs (Suc k0) = Some j" by simp
    from skipDeleted_bounds[OF s] have "j - k0 = Suc (j - Suc k0)" by arith
    with Cons.IH[OF s, of ] True show ?thesis by (simp add: contentSize_Cons)
  next
    case False
    with Cons.prems show ?thesis by simp
  qed
qed

lemma skipDeleted_None: "skipDeleted xs k0 = None \<Longrightarrow> contentSize leaf xs = 0"
  by (induction xs arbitrary: k0) (auto simp: contentSize_Cons contentSize_def toArray_def split: if_splits)

lemma findItem_end:
  "(\<forall>it \<in> set its. 0 \<le> infoLength it) \<Longrightarrow> countVisible its \<le> index \<Longrightarrow> findItem its j index = None"
proof (induction its arbitrary: j index)
  case Nil
  show ?case by simp
next
  case (Cons it its)
  from Cons.prems(1) have nn: "0 \<le> countVisible its" by (simp add: countVisible_nonneg)
  show ?case
  proof (cases "\<not> infoDeleted it \<and> infoCountable it")
    case True
    with Cons.prems nn have "\<not> infoLength it > index" "countVisible its \<le> index - infoLength it"
      by auto
    with True Cons.IH[of "index - infoLength it" "Suc j"] Cons.prems(1) show ?thesis by simp
  next
    case False
    with Cons.prems Cons.IH[of index "Suc j"] show ?thesis by auto
  qed
qed

lemma typeEnd:
  "createRelativePositionFromTypeIndex key cs [] (rootLength cs) = RelativePosition None (Some key) None"
proof -
  have "findItem (map childItemInfo cs) 0 (countVisible (map childItemInfo cs)) = None"
    by (rule findItem_end) (auto simp: childItemInfo_def)
  then show ?thesis
    by (simp add: createRelativePositionFromTypeIndex_def createRelativePosition_def itemsAt_def rootLength_def)
qed

lemma walk_beyond:
  "k < length cs \<Longrightarrow> \<not> deleted (cs ! k) \<Longrightarrow> contentSize leaf (drop k cs) < pos \<Longrightarrow>
   walk leaf key cs [k] pos = Inr (RelativePosition None (Some key) None)"
proof (induction "length cs - k" arbitrary: k pos rule: less_induct)
  case less
  let ?t = "cs ! k"
  have ty: "typeAt cs [k] = Some ?t" using less.prems(1) by simp
  have dk: "drop k cs = ?t # drop (Suc k) cs"
    using less.prems(1) by (rule Cons_nth_drop_Suc[symmetric])
  have sz: "contentSize leaf (drop k cs) = ysize leaf ?t + contentSize leaf (drop (Suc k) cs)"
    unfolding dk using less.prems(2) by (simp add: contentSize_Cons)
  have rest0: "0 \<le> contentSize leaf (drop (Suc k) cs)" by (rule contentSize_nonneg)
  have stop: "walk leaf key cs [] p = Inr (RelativePosition None (Some key) None)" for p
    by (subst walk.simps) (simp add: typeEnd)
  let ?s = "ysize leaf ?t"
  have over: "step leaf key cs [k] pos =
      (case nextSibling cs [k] of
         Some n' \<Rightarrow> endOfStep key cs (Some n') (pos - ?s)
       | None \<Rightarrow> Continue [] (pos - ?s - 1))"
  proof (cases "isXmlText ?t")
    case True
    then obtain i m its where t: "?t = YXmlText i m its" by (cases ?t) auto
    have "\<not> pos \<le> ylength ?t" using less.prems(3) sz rest0 t by simp
    then show ?thesis
      using ty True t
      by (auto simp: step_def afterAscent_def endOfStep_def split: option.splits)
  next
    case False
    then have s: "?s = pNodeSize leaf ?t" by (cases ?t) auto
    have big: "pNodeSize leaf ?t < pos" using less.prems(3) sz rest0 s by simp
    have nn: "0 \<le> pNodeSize leaf ?t" by (rule pNodeSize_nonneg)
    show ?thesis
      using ty False big nn s
      by (auto simp: step_def stepOver_def afterAscent_def endOfStep_def split: option.splits)
  qed
  show ?case
  proof (cases "skipDeleted (drop (Suc k) cs) (Suc k)")
    case None
    then have "nextSibling cs [k] = None" by simp
    with over have "step leaf key cs [k] pos = Continue [] (pos - ?s - 1)" by simp
    then show ?thesis by (subst walk.simps) (simp add: stop)
  next
    case (Some j)
    from skipDeleted_bounds[OF Some] less.prems(1) have j: "Suc k \<le> j" "j < length cs" by auto
    from skipDeleted_Some[OF Some, of leaf] j
    have vis: "\<not> deleted (cs ! j)" and cj: "contentSize leaf (drop (Suc k) cs) = contentSize leaf (drop j cs)"
      by (auto simp: less_imp_le_nat)
    have pj: "contentSize leaf (drop j cs) < pos - ?s" using less.prems(3) sz cj by simp
    have "0 \<le> contentSize leaf (drop j cs)" by (rule contentSize_nonneg)
    with pj have ne: "pos - ?s \<noteq> 0" by simp
    from Some have "nextSibling cs [k] = Some [j]" by simp
    with over ne have "step leaf key cs [k] pos = Continue [j] (pos - ?s)"
      by (simp add: endOfStep_def)
    moreover have "walk leaf key cs [j] (pos - ?s) = Inr (RelativePosition None (Some key) None)"
      by (rule less.hyps[OF _ j(2) vis pj]) (use j less.prems(1) in simp)
    ultimately show ?thesis by (subst walk.simps) simp
  qed
qed

text \<open>
  C10. For every offset greater than the content size of the bound fragment,
  \<^verbatim>\<open>absolutePositionToRelativePosition\<close> raises nothing and returns
  \<^verbatim>\<open>createRelativePositionFromTypeIndex(type, type._length)\<close>, the position at the end
  of the fragment: the key of the fragment and no item. The walk steps over the children
  of the fragment one after the other and never goes into one, so the theorem needs no
  hypothesis on the mapping; a child with no mapping entry counts for 0.
\<close>

theorem absolutePositionToRelativePosition_beyond_end:
  assumes "contentSize leaf cs < pos"
  shows "absolutePositionToRelativePosition leaf key pos (YXmlFragment m cs)
           = Inr (createRelativePositionFromTypeIndex key cs [] (rootLength cs))
         \<and> createRelativePositionFromTypeIndex key cs [] (rootLength cs)
           = RelativePosition None (Some key) None"
proof -
  from assms contentSize_nonneg[of leaf cs] have ne: "pos \<noteq> 0" by simp
  show ?thesis
  proof (cases "skipDeleted cs 0")
    case None
    then show ?thesis using ne by (simp add: firstChild_def typeEnd)
  next
    case (Some k)
    from skipDeleted_bounds[OF Some] have k: "k < length cs" by simp
    from skipDeleted_Some[OF Some, of leaf] have vis: "\<not> deleted (cs ! k)"
      and ck: "contentSize leaf cs = contentSize leaf (drop k cs)" by auto
    from walk_beyond[OF k vis, of leaf pos key] assms ck
    have "walk leaf key cs [k] pos = Inr (RelativePosition None (Some key) None)" by simp
    with Some ne show ?thesis by (simp add: firstChild_def typeEnd)
  qed
qed

text \<open>
  A paragraph holding the text \<^verbatim>\<open>ab\<close>: the content size is 4, and offset 5 gives the
  end of the fragment.
\<close>

theorem absolutePositionToRelativePosition_beyond_end_witness:
  "contentSize (\<lambda>name. False)
      [YXmlElement (Item (1, 0) False) (Some (PNode 1 ''p'' [] [PText 2 ''ab'' []])) ''p'' []
         [YXmlText (Item (1, 1) False) None [TextItem False (ContentString ''ab'')]]] = 4
   \<and> absolutePositionToRelativePosition (\<lambda>name. False) ''prosemirror'' 5
       (YXmlFragment None
          [YXmlElement (Item (1, 0) False) (Some (PNode 1 ''p'' [] [PText 2 ''ab'' []])) ''p'' []
             [YXmlText (Item (1, 1) False) None [TextItem False (ContentString ''ab'')]]])
     = Inr (RelativePosition None (Some ''prosemirror'') None)"
proof -
  have c: "contentSize (\<lambda>name. False)
      [YXmlElement (Item (1, 0) False) (Some (PNode 1 ''p'' [] [PText 2 ''ab'' []])) ''p'' []
         [YXmlText (Item (1, 1) False) None [TextItem False (ContentString ''ab'')]]] = 4"
    by (simp add: contentSize_def toArray_def deleted_def)
  from absolutePositionToRelativePosition_beyond_end[of "\<lambda>name. False"
      "[YXmlElement (Item (1, 0) False) (Some (PNode 1 ''p'' [] [PText 2 ''ab'' []])) ''p'' []
         [YXmlText (Item (1, 1) False) None [TextItem False (ContentString ''ab'')]]]" 5
      "''prosemirror''" None] c
  show ?thesis by simp
qed

lemma deleted_fillUnmapped: "deleted (fillUnmapped z t) = deleted t"
  by (cases t) (simp_all add: deleted_def)

lemma childList_fillUnmapped: "childList (fillUnmapped z t) = map (fillUnmapped z) (childList t)"
  by (cases t) simp_all

lemma isXmlText_fillUnmapped: "isXmlText (fillUnmapped z t) = isXmlText t"
  by (cases t) simp_all

lemma childItemInfo_fillUnmapped: "childItemInfo (fillUnmapped z t) = childItemInfo t"
  by (simp add: childItemInfo_def deleted_fillUnmapped)

lemma childItemInfo_comp: "childItemInfo \<circ> fillUnmapped z = childItemInfo"
  by (rule ext) (simp add: childItemInfo_fillUnmapped)

lemma ylength_fillUnmapped: "ylength (fillUnmapped z t) = ylength t"
  by (cases t) (simp_all add: childItemInfo_comp)

lemma pNodeSize_fillUnmapped: "nodeSize leaf z = 0 \<Longrightarrow> pNodeSize leaf (fillUnmapped z t) = pNodeSize leaf t"
  by (cases t) (simp_all split: option.splits)

lemma childrenAt_fillUnmapped:
  "childrenAt (map (fillUnmapped z) cs) n = map (fillUnmapped z) (childrenAt cs n)"
  by (induction n) (simp_all add: childList_fillUnmapped)

lemma typeAt_fillUnmapped:
  "typeAt (map (fillUnmapped z) cs) n = map_option (fillUnmapped z) (typeAt cs n)"
  by (cases n) (simp_all add: childrenAt_fillUnmapped)

lemma skipDeleted_fillUnmapped: "skipDeleted (map (fillUnmapped z) xs) k = skipDeleted xs k"
  by (induction xs arbitrary: k) (simp_all add: deleted_fillUnmapped)

lemma firstChild_fillUnmapped: "firstChild (map (fillUnmapped z) cs) n = firstChild cs n"
  by (simp add: firstChild_def childrenAt_fillUnmapped skipDeleted_fillUnmapped)

lemma nextSibling_fillUnmapped: "nextSibling (map (fillUnmapped z) cs) n = nextSibling cs n"
  by (cases n) (simp_all add: childrenAt_fillUnmapped skipDeleted_fillUnmapped drop_map)

lemma itemsAt_fillUnmapped: "itemsAt (map (fillUnmapped z) cs) n = itemsAt cs n"
proof (cases "typeAt cs n")
  case None
  then show ?thesis
    by (simp add: itemsAt_def typeAt_fillUnmapped childrenAt_fillUnmapped childItemInfo_fillUnmapped)
next
  case (Some t)
  then show ?thesis
    by (cases t)
       (simp_all add: itemsAt_def typeAt_fillUnmapped childrenAt_fillUnmapped childItemInfo_fillUnmapped)
qed

lemma typeIndex_fillUnmapped:
  "createRelativePositionFromTypeIndex key (map (fillUnmapped z) cs) n index
     = createRelativePositionFromTypeIndex key cs n index"
  by (simp add: createRelativePositionFromTypeIndex_def itemsAt_fillUnmapped)

lemma isTextAt_fillUnmapped: "isTextAt (map (fillUnmapped z) cs) n = isTextAt cs n"
  by (cases "typeAt cs n") (simp_all add: isTextAt_def typeAt_fillUnmapped isXmlText_fillUnmapped)

lemma endOfStep_fillUnmapped: "endOfStep key (map (fillUnmapped z) cs) n pos = endOfStep key cs n pos"
  by (simp add: endOfStep_def isTextAt_fillUnmapped split: option.splits)

lemma ascendText_fillUnmapped: "ascendText (map (fillUnmapped z) cs) n pos = ascendText cs n pos"
  by (induction cs n pos rule: ascendText.induct) (simp_all add: nextSibling_fillUnmapped)

lemma ascendElement_fillUnmapped: "ascendElement (map (fillUnmapped z) cs) n pos = ascendElement cs n pos"
  by (induction cs n pos rule: ascendElement.induct) (simp_all add: nextSibling_fillUnmapped)

lemma afterAscent_fillUnmapped: "afterAscent key (map (fillUnmapped z) cs) n pos = afterAscent key cs n pos"
  by (simp add: afterAscent_def nextSibling_fillUnmapped endOfStep_fillUnmapped split: option.splits)

lemma stepOver_fillUnmapped:
  "nodeSize leaf z = 0 \<Longrightarrow>
   stepOver leaf key (map (fillUnmapped z) cs) n (fillUnmapped z t) pos = stepOver leaf key cs n t pos"
  by (simp add: stepOver_def ylength_fillUnmapped pNodeSize_fillUnmapped nextSibling_fillUnmapped
      endOfStep_fillUnmapped ascendElement_fillUnmapped afterAscent_fillUnmapped
      split: option.splits sum.splits)

lemma step_fillUnmapped:
  assumes "nodeSize leaf z = 0"
  shows "step leaf key (map (fillUnmapped z) cs) n pos = step leaf key cs n pos"
proof (cases "typeAt cs n")
  case None
  then show ?thesis by (simp add: step_def typeAt_fillUnmapped)
next
  case (Some t)
  then show ?thesis
    by (simp add: step_def typeAt_fillUnmapped isXmlText_fillUnmapped ylength_fillUnmapped
        pNodeSize_fillUnmapped[OF assms] nextSibling_fillUnmapped endOfStep_fillUnmapped
        ascendText_fillUnmapped afterAscent_fillUnmapped firstChild_fillUnmapped
        stepOver_fillUnmapped[OF assms] typeIndex_fillUnmapped
        split: option.splits prod.splits)
qed

lemma rootLength_fillUnmapped: "rootLength (map (fillUnmapped z) cs) = rootLength cs"
  by (simp add: rootLength_def childItemInfo_comp)

lemma walk_fillUnmapped:
  assumes "nodeSize leaf z = 0"
  shows "walk leaf key (map (fillUnmapped z) cs) n pos = walk leaf key cs n pos"
  using assms
proof (induction leaf key cs n pos rule: walk.induct)
  case (1 leaf key cs n pos)
  note z = "1.prems"
  show ?case
  proof (cases "n = []")
    case True
    then show ?thesis
      by (subst walk.simps[of leaf key cs n pos], subst walk.simps[of leaf key "map (fillUnmapped z) cs" n pos])
         (simp add: typeIndex_fillUnmapped rootLength_fillUnmapped)
  next
    case False
    show ?thesis
    proof (cases "step leaf key cs n pos")
      case (Return r)
      then show ?thesis using False
        by (subst walk.simps[of leaf key cs n pos], subst walk.simps[of leaf key "map (fillUnmapped z) cs" n pos]) (simp add: step_fillUnmapped[OF z])
    next
      case (Continue n' pos')
      from "1.IH"[OF False Continue z] Continue False show ?thesis
        by (subst walk.simps[of leaf key cs n pos], subst walk.simps[of leaf key "map (fillUnmapped z) cs" n pos]) (simp add: step_fillUnmapped[OF z])
    qed
  qed
qed

text \<open>
  C8. In \<^verbatim>\<open>absolutePositionToRelativePosition\<close> an element with no entry in the
  Mapping Table is treated exactly as an element whose mapped node reports the size 0:
  for every offset and every tree, giving each unmapped element an entry \<open>z\<close> with
  \<^verbatim>\<open>nodeSize\<close> 0 (the object \<^verbatim>\<open>{ nodeSize: 0 }\<close> of line 907) changes nothing in
  the result, neither the position returned nor an exception.
\<close>

theorem unmapped_element_counts_zero:
  assumes "nodeSize leaf z = 0"
  shows "absolutePositionToRelativePosition leaf key pos (YXmlFragment m (map (fillUnmapped z) cs))
       = absolutePositionToRelativePosition leaf key pos (YXmlFragment m cs)"
  by (simp add: typeIndex_fillUnmapped rootLength_fillUnmapped firstChild_fillUnmapped
      walk_fillUnmapped[OF assms] split: option.splits)

text \<open>
  Two paragraphs, the first with no mapping entry: offset 3 goes past the first
  paragraph at no cost and ends behind the text of the second, with the entry of size 0
  and without it.
\<close>

theorem unmapped_element_counts_zero_witness:
  "nodeSize (\<lambda>name. False) (PText 0 [] []) = 0
   \<and> absolutePositionToRelativePosition (\<lambda>name. False) ''prosemirror'' 3
        (YXmlFragment None
           [YXmlElement (Item (1, 0) False) (Some (PText 0 [] [])) ''p'' []
              [YXmlText (Item (1, 1) False) None [TextItem False (ContentString ''ab'')]],
            YXmlElement (Item (1, 2) False) (Some (PNode 1 ''p'' [] [PText 2 ''cd'' []])) ''p'' []
              [YXmlText (Item (1, 3) False) None [TextItem False (ContentString ''cd'')]]])
      = Inr (RelativePosition (Some ([0, 1], 0)) None None)
   \<and> absolutePositionToRelativePosition (\<lambda>name. False) ''prosemirror'' 3
        (YXmlFragment None
           [YXmlElement (Item (1, 0) False) None ''p'' []
              [YXmlText (Item (1, 1) False) None [TextItem False (ContentString ''ab'')]],
            YXmlElement (Item (1, 2) False) (Some (PNode 1 ''p'' [] [PText 2 ''cd'' []])) ''p'' []
              [YXmlText (Item (1, 3) False) None [TextItem False (ContentString ''cd'')]]])
      = Inr (RelativePosition (Some ([0, 1], 0)) None None)"
proof -
  have a: "absolutePositionToRelativePosition (\<lambda>name. False) ''prosemirror'' 3
        (YXmlFragment None
           [YXmlElement (Item (1, 0) False) None ''p'' []
              [YXmlText (Item (1, 1) False) None [TextItem False (ContentString ''ab'')]],
            YXmlElement (Item (1, 2) False) (Some (PNode 1 ''p'' [] [PText 2 ''cd'' []])) ''p'' []
              [YXmlText (Item (1, 3) False) None [TextItem False (ContentString ''cd'')]]])
      = Inr (RelativePosition (Some ([0, 1], 0)) None None)"
    by (simp add: walk.simps step_def stepOver_def endOfStep_def isTextAt_def firstChild_def deleted_def
        childItemInfo_def createRelativePositionFromTypeIndex_def createRelativePosition_def
        itemsAt_def)
  have z: "nodeSize (\<lambda>name. False) (PText 0 [] []) = 0" by simp
  from unmapped_element_counts_zero[OF z, of "''prosemirror''" 3 None
      "[YXmlElement (Item (1, 0) False) None ''p'' []
              [YXmlText (Item (1, 1) False) None [TextItem False (ContentString ''ab'')]],
            YXmlElement (Item (1, 2) False) (Some (PNode 1 ''p'' [] [PText 2 ''cd'' []])) ''p'' []
              [YXmlText (Item (1, 3) False) None [TextItem False (ContentString ''cd'')]]]"] a
  show ?thesis by simp
qed

end
